theory Spec2Isabelle
  imports Main "HOL-Library.AList" "HOL-Library.Sublist"
begin

section \<open>Values, requests and responses\<close>

text \<open>
  The router of \<^verbatim>\<open>src/router.ts\<close> catches whatever a handler or the context builder
  throws, tests the caught value with \<^verbatim>\<open>instanceof Response\<close> and with JavaScript
  truthiness, and puts it into the body of a response. The values it can meet are
  modelled by \<open>jsval\<close>: the falsy primitives, numbers (integers and NaN), BigInts,
  strings, \<^verbatim>\<open>Error\<close> objects (name and message), plain objects (their own properties
  in enumeration order), an object that refers to itself, and \<^verbatim>\<open>Response\<close> objects.
  A response is a status code and a body; the body is kept as the value handed to
  \<^verbatim>\<open>Response.json\<close> (or the text handed to \<^verbatim>\<open>new Response\<close>). Strings are byte
  strings, read as UTF-8.
\<close>

datatype jsval =
    JSUndefined
  | JSNull
  | JSBool bool
  | JSNumber int
  | JSNaN
  | JSBigInt int
  | JSString string
  | JSError string string
  | JSObject "(string \<times> jsval) list"
  | JSCyclic
  | JSResponse response
and response =
    Response (status: nat) (body: jsval)

text \<open>The outcome of a call: a value, or a thrown value (a rejected promise).\<close>

datatype 'a completion = Returns 'a | Throws jsval

text \<open>JavaScript's \<^verbatim>\<open>ToBoolean\<close>, as used by \<^verbatim>\<open>if (lastError)\<close>.\<close>

fun truthy :: "jsval \<Rightarrow> bool" where
  "truthy JSUndefined = False"
| "truthy JSNull = False"
| "truthy (JSBool b) = b"
| "truthy (JSNumber n) = (n \<noteq> 0)"
| "truthy JSNaN = False"
| "truthy (JSBigInt n) = (n \<noteq> 0)"
| "truthy (JSString s) = (s \<noteq> [])"
| "truthy (JSError n m) = True"
| "truthy (JSObject ps) = True"
| "truthy JSCyclic = True"
| "truthy (JSResponse r) = True"

text \<open>
  \<^verbatim>\<open>Response.json(data, { status })\<close> serialises \<open>data\<close> with \<^verbatim>\<open>JSON.stringify\<close>,
  which throws a \<^verbatim>\<open>TypeError\<close> on a BigInt and on a cyclic structure, wherever in
  \<open>data\<close> it stands; an \<^verbatim>\<open>Error\<close> or \<^verbatim>\<open>Response\<close> object has no enumerable property
  of its own and serialises as \<^verbatim>\<open>{}\<close>. The message of the \<^verbatim>\<open>TypeError\<close> is the
  engine's and is left empty.
\<close>

fun serialisable :: "jsval \<Rightarrow> bool" where
  "serialisable (JSBigInt n) = False"
| "serialisable JSCyclic = False"
| "serialisable (JSObject ps) = (\<forall>(k, v) \<in> set ps. serialisable v)"
| "serialisable v = True"

definition JSON_TypeError :: jsval where
  "JSON_TypeError = JSError ''TypeError'' []"

definition Response_json :: "jsval \<Rightarrow> nat \<Rightarrow> response completion" where
  "Response_json data code =
     (if serialisable data then Returns (Response code data) else Throws JSON_TypeError)"

text \<open>
  Of a request the router reads \<^verbatim>\<open>request.method\<close> and, through
  \<^verbatim>\<open>new URL(request.url)\<close>, the \<^verbatim>\<open>host\<close> and \<^verbatim>\<open>pathname\<close> of its URL. The URL of a
  \<^verbatim>\<open>Request\<close> is always an absolute, already parsed URL, so the two components are
  fields of the model; what else a request carries (headers, body) is left to the
  record's extension.
\<close>

record request =
  request_method :: string
  url_host :: string
  url_pathname :: string

text \<open>
  \<^verbatim>\<open>params: Record<string, string>\<close>, an object made by \<^verbatim>\<open>{}\<close>: a map from the names
  of its own properties to their values. \<^verbatim>\<open>params[name] = value\<close> makes or replaces
  the property, except for the name \<^verbatim>\<open>__proto__\<close>: there the assignment goes to the
  setter inherited from \<^verbatim>\<open>Object.prototype\<close>, which ignores a string, and no
  property is made.
\<close>

type_synonym params = "string \<rightharpoonup> string"

definition set_param :: "string \<Rightarrow> string \<Rightarrow> params \<Rightarrow> params" where
  "set_param name v ps = (if name = ''__proto__'' then ps else ps(name \<mapsto> v))"

text \<open>
  A handler is a JavaScript function: it has a declared parameter count
  (\<^verbatim>\<open>handler.length\<close>) and, called with \<^verbatim>\<open>{ request, params }\<close> and possibly a
  context, it returns a response or throws; it may read and change state outside the
  router (\<open>'s\<close>). The context builder likewise.
\<close>

record ('c, 's) ProtocolHandler =
  arity :: nat
  invoke :: "request \<Rightarrow> params \<Rightarrow> 'c option \<Rightarrow> 's \<Rightarrow> response completion \<times> 's"

type_synonym ('c, 's) ContextBuilder = "request \<Rightarrow> 's \<Rightarrow> 'c completion \<times> 's"

section \<open>The route table\<close>

datatype HttpMethod = GET | POST | PUT | DELETE | PATCH | HEAD | OPTIONS | TRACE | CONNECT

text \<open>The keys of \<^verbatim>\<open>#routes\<close>: \<^verbatim>\<open>HttpMethod | '*'\<close>.\<close>

datatype route_key = Method HttpMethod | Star

fun method_name :: "HttpMethod \<Rightarrow> string" where
  "method_name GET = ''GET''"
| "method_name POST = ''POST''"
| "method_name PUT = ''PUT''"
| "method_name DELETE = ''DELETE''"
| "method_name PATCH = ''PATCH''"
| "method_name HEAD = ''HEAD''"
| "method_name OPTIONS = ''OPTIONS''"
| "method_name TRACE = ''TRACE''"
| "method_name CONNECT = ''CONNECT''"

fun key_name :: "route_key \<Rightarrow> string" where
  "key_name (Method m) = method_name m"
| "key_name Star = ''*''"

text \<open>
  \<^verbatim>\<open>#routes\<close> is an object whose values are \<^verbatim>\<open>Map\<close>s; both enumerate in insertion
  order, so both are association lists. \<^verbatim>\<open>obj[k] = v\<close> and \<^verbatim>\<open>map.set(k, v)\<close> are
  \<^const>\<open>AList.update\<close>: the value of a key that exists is replaced where it stands, a new
  key goes to the end.
\<close>

type_synonym ('c, 's) bucket = "(string \<times> ('c, 's) ProtocolHandler list) list"

record ('c, 's) ProtocolRouter =
  routes :: "(route_key \<times> ('c, 's) bucket) list"
  contextBuilder :: "('c, 's) ContextBuilder option"

text \<open>The constructor: an empty table and the optional context builder.\<close>

definition new_ProtocolRouter ::
  "('c, 's) ContextBuilder option \<Rightarrow> ('c, 's) ProtocolRouter" where
  "new_ProtocolRouter cb = \<lparr>routes = [], contextBuilder = cb\<rparr>"

text \<open>\<^verbatim>\<open>#add(method, path, handler)\<close>, lines 274 to 287.\<close>

definition add ::
  "route_key \<Rightarrow> string \<Rightarrow> ('c, 's) ProtocolHandler \<Rightarrow> ('c, 's) ProtocolRouter
     \<Rightarrow> ('c, 's) ProtocolRouter" where
  "add m path h r =
     (case map_of (routes r) m of
        None \<Rightarrow>
          r\<lparr>routes := AList.update m (AList.update path [h] []) (routes r)\<rparr>
      | Some entry \<Rightarrow>
          (case map_of entry path of
             Some handlers \<Rightarrow>
               r\<lparr>routes := AList.update m (AList.update path (handlers @ [h]) entry) (routes r)\<rparr>
           | None \<Rightarrow>
               r\<lparr>routes := AList.update m (AList.update path [h] entry) (routes r)\<rparr>))"

text \<open>
  The constructor binds \<^verbatim>\<open>this[method.toLowerCase()] = this.#add.bind(this, method)\<close>
  for every member of \<^verbatim>\<open>HttpMethod\<close>; \<^verbatim>\<open>on\<close> registers under \<^verbatim>\<open>'*'\<close>.
\<close>

definition get :: "string \<Rightarrow> ('c, 's) ProtocolHandler \<Rightarrow> ('c, 's) ProtocolRouter \<Rightarrow> ('c, 's) ProtocolRouter" where
  "get = add (Method GET)"

definition post :: "string \<Rightarrow> ('c, 's) ProtocolHandler \<Rightarrow> ('c, 's) ProtocolRouter \<Rightarrow> ('c, 's) ProtocolRouter" where
  "post = add (Method POST)"

definition put :: "string \<Rightarrow> ('c, 's) ProtocolHandler \<Rightarrow> ('c, 's) ProtocolRouter \<Rightarrow> ('c, 's) ProtocolRouter" where
  "put = add (Method PUT)"

definition delete :: "string \<Rightarrow> ('c, 's) ProtocolHandler \<Rightarrow> ('c, 's) ProtocolRouter \<Rightarrow> ('c, 's) ProtocolRouter" where
  "delete = add (Method DELETE)"

definition patch :: "string \<Rightarrow> ('c, 's) ProtocolHandler \<Rightarrow> ('c, 's) ProtocolRouter \<Rightarrow> ('c, 's) ProtocolRouter" where
  "patch = add (Method PATCH)"

definition head :: "string \<Rightarrow> ('c, 's) ProtocolHandler \<Rightarrow> ('c, 's) ProtocolRouter \<Rightarrow> ('c, 's) ProtocolRouter" where
  "head = add (Method HEAD)"

definition options :: "string \<Rightarrow> ('c, 's) ProtocolHandler \<Rightarrow> ('c, 's) ProtocolRouter \<Rightarrow> ('c, 's) ProtocolRouter" where
  "options = add (Method OPTIONS)"

definition trace :: "string \<Rightarrow> ('c, 's) ProtocolHandler \<Rightarrow> ('c, 's) ProtocolRouter \<Rightarrow> ('c, 's) ProtocolRouter" where
  "trace = add (Method TRACE)"

definition connect :: "string \<Rightarrow> ('c, 's) ProtocolHandler \<Rightarrow> ('c, 's) ProtocolRouter \<Rightarrow> ('c, 's) ProtocolRouter" where
  "connect = add (Method CONNECT)"

definition on :: "string \<Rightarrow> ('c, 's) ProtocolHandler \<Rightarrow> ('c, 's) ProtocolRouter \<Rightarrow> ('c, 's) ProtocolRouter" where
  "on = add Star"

section \<open>Strings\<close>

text \<open>
  \<^verbatim>\<open>String.prototype.split\<close> with a one-character separator: the pieces between the
  separators, so always at least one piece.
\<close>

fun js_split :: "char \<Rightarrow> string \<Rightarrow> string list" where
  "js_split sep [] = [[]]"
| "js_split sep (c # cs) =
     (if c = sep then [] # js_split sep cs
      else (case js_split sep cs of [] \<Rightarrow> [[c]] | p # ps \<Rightarrow> (c # p) # ps))"

definition startsWith :: "string \<Rightarrow> string \<Rightarrow> bool" where
  "startsWith s p = (take (length p) s = p)"

text \<open>
  \<^verbatim>\<open>toUpperCase\<close> on the letters a to z. A request method is an HTTP token, hence
  ASCII, and other bytes are left as they are.
\<close>

definition upper_char :: "char \<Rightarrow> char" where
  "upper_char c =
     (let n = (of_char c :: nat) in if 97 \<le> n \<and> n \<le> 122 then char_of (n - 32) else c)"

definition toUpperCase :: "string \<Rightarrow> string" where
  "toUpperCase s = map upper_char s"

subsection \<open>decodeURIComponent\<close>

text \<open>
  The built-in \<^verbatim>\<open>decodeURIComponent\<close> (ECMAScript, abstract operation Decode with an
  empty set of preserved escapes) on UTF-8 byte strings. Every \<^verbatim>\<open>%\<close> must start an
  escape \<^verbatim>\<open>%XX\<close> of two hexadecimal digits; an escaped byte below 128 is that
  character; an escaped byte from 128 on must begin a run of escapes that is the
  well-formed UTF-8 encoding of one code point, which is what the result then holds at
  that place. Anything else throws a \<^verbatim>\<open>URIError\<close>. The model reads the escapes
  first and checks the encoded runs second; the built-in does both in one pass and
  throws in the same cases.
\<close>

definition hex_digit :: "char \<Rightarrow> nat option" where
  "hex_digit c =
     (let n = (of_char c :: nat) in
      if 48 \<le> n \<and> n \<le> 57 then Some (n - 48)
      else if 65 \<le> n \<and> n \<le> 70 then Some (n - 55)
      else if 97 \<le> n \<and> n \<le> 102 then Some (n - 87)
      else None)"

datatype uri_item = Lit char | Esc nat

fun unescape :: "string \<Rightarrow> uri_item list option" where
  "unescape [] = Some []"
| "unescape (c # cs) =
     (if c \<noteq> CHR ''%'' then map_option (Cons (Lit c)) (unescape cs)
      else (case cs of
              a # b # rest \<Rightarrow>
                (case (hex_digit a, hex_digit b) of
                   (Some x, Some y) \<Rightarrow> map_option (Cons (Esc (16 * x + y))) (unescape rest)
                 | _ \<Rightarrow> None)
            | _ \<Rightarrow> None))"

definition continuation :: "nat \<Rightarrow> bool" where
  "continuation b = (128 \<le> b \<and> b \<le> 191)"

text \<open>The second byte of a well-formed sequence, by its first byte (Unicode, table 3-7).\<close>

definition second_byte :: "nat \<Rightarrow> nat \<Rightarrow> bool" where
  "second_byte b c =
     (if b = 224 then 160 \<le> c \<and> c \<le> 191
      else if b = 237 then 128 \<le> c \<and> c \<le> 159
      else if b = 240 then 144 \<le> c \<and> c \<le> 191
      else if b = 244 then 128 \<le> c \<and> c \<le> 143
      else continuation c)"

fun utf8_runs :: "uri_item list \<Rightarrow> string option" where
  "utf8_runs [] = Some []"
| "utf8_runs (Lit c # xs) = map_option (Cons c) (utf8_runs xs)"
| "utf8_runs (Esc b # xs) =
     (if b < 128 then map_option (Cons (char_of b)) (utf8_runs xs)
      else if 194 \<le> b \<and> b \<le> 223 then
        (case xs of
           Esc c1 # ys \<Rightarrow>
             if continuation c1
             then map_option (\<lambda>s. char_of b # char_of c1 # s) (utf8_runs ys)
             else None
         | _ \<Rightarrow> None)
      else if 224 \<le> b \<and> b \<le> 239 then
        (case xs of
           Esc c1 # Esc c2 # ys \<Rightarrow>
             if second_byte b c1 \<and> continuation c2
             then map_option (\<lambda>s. char_of b # char_of c1 # char_of c2 # s) (utf8_runs ys)
             else None
         | _ \<Rightarrow> None)
      else if 240 \<le> b \<and> b \<le> 244 then
        (case xs of
           Esc c1 # Esc c2 # Esc c3 # ys \<Rightarrow>
             if second_byte b c1 \<and> continuation c2 \<and> continuation c3
             then map_option
                    (\<lambda>s. char_of b # char_of c1 # char_of c2 # char_of c3 # s) (utf8_runs ys)
             else None
         | _ \<Rightarrow> None)
      else None)"

definition URIError :: jsval where
  "URIError = JSError ''URIError'' ''URI malformed''"

definition decodeURIComponent :: "string \<Rightarrow> string completion" where
  "decodeURIComponent s =
     (case unescape s of
        None \<Rightarrow> Throws URIError
      | Some items \<Rightarrow>
          (case utf8_runs items of None \<Rightarrow> Throws URIError | Some t \<Rightarrow> Returns t))"

section \<open>The dispatcher\<close>

text \<open>
  The closure \<^verbatim>\<open>#handler\<close> (lines 175 to 248) keeps one variable, \<^verbatim>\<open>lastError\<close>,
  and calls functions it was given. The state of a dispatch is that variable, the state
  outside the router (\<open>world\<close>) on which handlers and context builder act, and a record
  of what was done (\<open>calls\<close>): every call of the context builder and of a handler with
  its outcome, and every assignment to \<^verbatim>\<open>lastError\<close>. The code never reads
  \<open>calls\<close>; it is there so that properties of a dispatch can speak of what was
  invoked and in which order. Awaited calls are taken to settle.
\<close>

datatype ('c, 's) event =
    ContextBuilt "'c completion"
  | HandlerCalled "('c, 's) ProtocolHandler" request params "'c option" "response completion"
  | Recorded jsval

record ('c, 's) dispatch_state =
  lastError :: jsval
  world :: 's
  calls :: "('c, 's) event list"

text \<open>What an iteration does to the closure: it returns from it, or the loop goes on.\<close>

datatype flow = Return response | Next

text \<open>\<^verbatim>\<open>lastError = error\<close>.\<close>

definition record_error :: "jsval \<Rightarrow> ('c, 's) dispatch_state \<Rightarrow> ('c, 's) dispatch_state" where
  "record_error e st = st\<lparr>lastError := e, calls := calls st @ [Recorded e]\<rparr>"

text \<open>
  \<^verbatim>\<open>return await handler({ request, params }, context)\<close> inside the \<^verbatim>\<open>try\<close> of lines
  207 to 230: the response is returned, a thrown value is recorded and the loop goes on.
\<close>

definition call_handler ::
  "('c, 's) ProtocolHandler \<Rightarrow> request \<Rightarrow> params \<Rightarrow> 'c option \<Rightarrow> ('c, 's) dispatch_state
     \<Rightarrow> flow \<times> ('c, 's) dispatch_state" where
  "call_handler h req ps ctx st =
     (case invoke h req ps ctx (world st) of
        (Returns resp, w) \<Rightarrow>
          (Return resp,
           st\<lparr>world := w, calls := calls st @ [HandlerCalled h req ps ctx (Returns resp)]\<rparr>)
      | (Throws e, w) \<Rightarrow>
          (Next,
           record_error e
             (st\<lparr>world := w, calls := calls st @ [HandlerCalled h req ps ctx (Throws e)]\<rparr>)))"

text \<open>The body of \<^verbatim>\<open>for (const handler of handlers)\<close>, lines 207 to 230.\<close>

definition try_handler ::
  "('c, 's) ContextBuilder option \<Rightarrow> request \<Rightarrow> params \<Rightarrow> ('c, 's) ProtocolHandler
     \<Rightarrow> ('c, 's) dispatch_state \<Rightarrow> flow \<times> ('c, 's) dispatch_state" where
  "try_handler cb req ps h st =
     (case cb of
        None \<Rightarrow> call_handler h req ps None st
      | Some builder \<Rightarrow>
          (case builder req (world st) of
             (Returns context, w) \<Rightarrow>
               call_handler h req ps (Some context)
                 (st\<lparr>world := w, calls := calls st @ [ContextBuilt (Returns context)]\<rparr>)
           | (Throws error, w) \<Rightarrow>
               (let st1 = st\<lparr>world := w, calls := calls st @ [ContextBuilt (Throws error)]\<rparr>
                in case error of
                     JSResponse resp \<Rightarrow> (Return resp, st1)
                   | _ \<Rightarrow>
                       if arity h < 2 then call_handler h req ps None st1
                       else (Next, record_error error st1))))"

text \<open>The loop \<^verbatim>\<open>for (const handler of handlers)\<close>, lines 206 to 231.\<close>

fun try_handlers ::
  "('c, 's) ContextBuilder option \<Rightarrow> request \<Rightarrow> params \<Rightarrow> ('c, 's) ProtocolHandler list
     \<Rightarrow> ('c, 's) dispatch_state \<Rightarrow> flow \<times> ('c, 's) dispatch_state" where
  "try_handlers cb req ps [] st = (Next, st)"
| "try_handlers cb req ps (h # hs) st =
     (case try_handler cb req ps h st of
        (Return resp, st') \<Rightarrow> (Return resp, st')
      | (Next, st') \<Rightarrow> try_handlers cb req ps hs st')"

text \<open>
  Lines 189 to 204: the comparison of a pattern with the request's path parts. It ends
  with the parameters bound (\<open>Matched\<close>), with \<^verbatim>\<open>matched = false\<close> or unequal lengths
  (\<open>Rejected\<close>), or with the \<^verbatim>\<open>URIError\<close> of \<^verbatim>\<open>decodeURIComponent\<close> (\<open>Threw\<close>). The
  loop over \<open>i\<close> runs on the two lists side by side, which have the same length when
  it is entered.
\<close>

datatype match_result = Matched params | Rejected | Threw jsval

fun match_parts :: "(string \<times> string) list \<Rightarrow> params \<Rightarrow> match_result" where
  "match_parts [] params = Matched params"
| "match_parts ((routePart, pathPart) # rest) params =
     (if startsWith routePart '':'' then
        (case decodeURIComponent pathPart of
           Throws e \<Rightarrow> Threw e
         | Returns v \<Rightarrow> match_parts rest (set_param (drop 1 routePart) v params))
      else if routePart \<noteq> pathPart then Rejected
      else match_parts rest params)"

definition match_route :: "string \<Rightarrow> string list \<Rightarrow> match_result" where
  "match_route path pathParts =
     (let routeParts = js_split CHR ''/'' path in
      if length routeParts \<noteq> length pathParts then Rejected
      else match_parts (zip routeParts pathParts) Map.empty)"

text \<open>The body of \<^verbatim>\<open>for (const [path, handlers] of entry)\<close>, lines 188 to 236.\<close>

definition try_route ::
  "('c, 's) ContextBuilder option \<Rightarrow> request \<Rightarrow> string list
     \<Rightarrow> string \<times> ('c, 's) ProtocolHandler list
     \<Rightarrow> ('c, 's) dispatch_state \<Rightarrow> flow \<times> ('c, 's) dispatch_state" where
  "try_route cb req pathParts route st =
     (case route of (path, handlers) \<Rightarrow>
        (case match_route path pathParts of
           Threw e \<Rightarrow> (Next, record_error e st)
         | Rejected \<Rightarrow> (Next, st)
         | Matched params \<Rightarrow> try_handlers cb req params handlers st))"

text \<open>The loop \<^verbatim>\<open>for (const [path, handlers] of entry)\<close>, lines 187 to 237.\<close>

fun scan_entry ::
  "('c, 's) ContextBuilder option \<Rightarrow> request \<Rightarrow> string list \<Rightarrow> ('c, 's) bucket
     \<Rightarrow> ('c, 's) dispatch_state \<Rightarrow> flow \<times> ('c, 's) dispatch_state" where
  "scan_entry cb req pathParts [] st = (Next, st)"
| "scan_entry cb req pathParts (route # entry) st =
     (case try_route cb req pathParts route st of
        (Return resp, st') \<Rightarrow> (Return resp, st')
      | (Next, st') \<Rightarrow> scan_entry cb req pathParts entry st')"

text \<open>The loop \<^verbatim>\<open>for (const [method, entry] of entries)\<close>, lines 183 to 238.\<close>

fun scan_entries ::
  "('c, 's) ContextBuilder option \<Rightarrow> request \<Rightarrow> string list \<Rightarrow> string
     \<Rightarrow> (route_key \<times> ('c, 's) bucket) list
     \<Rightarrow> ('c, 's) dispatch_state \<Rightarrow> flow \<times> ('c, 's) dispatch_state" where
  "scan_entries cb req pathParts requestMethod [] st = (Next, st)"
| "scan_entries cb req pathParts requestMethod ((m, entry) # entries) st =
     (if key_name m \<noteq> ''*'' \<and> key_name m \<noteq> requestMethod
      then scan_entries cb req pathParts requestMethod entries st
      else (case scan_entry cb req pathParts entry st of
              (Return resp, st') \<Rightarrow> (Return resp, st')
            | (Next, st') \<Rightarrow> scan_entries cb req pathParts requestMethod entries st'))"

text \<open>
  The search of lines 177 to 241, from \<^verbatim>\<open>lastError = null\<close> and a given outside world.
  Lines 178 to 182 do not throw for a request, and what is thrown inside the loops is
  caught there, so the \<^verbatim>\<open>catch\<close> of line 239 is not entered.
\<close>

definition search ::
  "('c, 's) ProtocolRouter \<Rightarrow> request \<Rightarrow> 's \<Rightarrow> flow \<times> ('c, 's) dispatch_state" where
  "search r req w =
     (let pathParts = js_split CHR ''/'' (''/'' @ url_host req @ url_pathname req);
          requestMethod = toUpperCase (request_method req)
      in scan_entries (contextBuilder r) req pathParts requestMethod (routes r)
           \<lparr>lastError = JSNull, world = w, calls = []\<rparr>)"

text \<open>
  \<^verbatim>\<open>#handler\<close>: the search, then lines 243 to 247, which stand after the \<^verbatim>\<open>try\<close> of
  line 177: what \<^verbatim>\<open>Response.json\<close> throws there is not caught, and the promise the
  closure returns is rejected with it. The result is the response the closure returns,
  or the value it throws, with the final state of the dispatch.
\<close>

definition handler ::
  "('c, 's) ProtocolRouter \<Rightarrow> request \<Rightarrow> 's
     \<Rightarrow> response completion \<times> ('c, 's) dispatch_state" where
  "handler r req w =
     (case search r req w of
        (Return resp, st) \<Rightarrow> (Returns resp, st)
      | (Next, st) \<Rightarrow>
          (if truthy (lastError st)
           then Response_json
                  (JSObject [(''message'', JSString ''Internal error''), (''reason'', lastError st)])
                  500
           else Response_json (JSObject [(''message'', JSString ''Not found'')]) 404,
           st))"

section \<open>Binding to a transport\<close>

text \<open>
  \<^verbatim>\<open>register(protocol, scheme)\<close>, lines 267 to 272. Electron's \<^verbatim>\<open>Protocol\<close> is not
  part of the repository: \<^verbatim>\<open>protocol.handle\<close> is a parameter, acting on a transport
  state \<open>'t\<close>. The result is what the method returns, an \<^verbatim>\<open>Error\<close> object or
  \<^verbatim>\<open>undefined\<close>, with the transport afterwards.
\<close>

definition no_handlers_error :: jsval where
  "no_handlers_error =
     JSError ''Error''
       ''No handlers have been registered. Please add at least one handler before calling this method.''"

definition register ::
  "(string \<Rightarrow> (request \<Rightarrow> 's \<Rightarrow> response completion \<times> ('c, 's) dispatch_state) \<Rightarrow> 't \<Rightarrow> 't)
     \<Rightarrow> string \<Rightarrow> ('c, 's) ProtocolRouter \<Rightarrow> 't \<Rightarrow> jsval \<times> 't" where
  "register protocol_handle scheme r t =
     (if length (routes r) = 0 then (no_handlers_error, t)
      else (JSUndefined, protocol_handle scheme (handler r) t))"

section \<open>Notions used in the properties\<close>

text \<open>The two responses the router makes itself, lines 244 and 246.\<close>

definition internal_error :: "jsval \<Rightarrow> response" where
  "internal_error e =
     Response 500 (JSObject [(''message'', JSString ''Internal error''), (''reason'', e)])"

definition not_found :: response where
  "not_found = Response 404 (JSObject [(''message'', JSString ''Not found'')])"

text \<open>The handler list of a (method, pattern) pair, if the table has one.\<close>

definition handlers_of ::
  "('c, 's) ProtocolRouter \<Rightarrow> route_key \<Rightarrow> string \<Rightarrow> ('c, 's) ProtocolHandler list option" where
  "handlers_of r m path =
     (case map_of (routes r) m of None \<Rightarrow> None | Some entry \<Rightarrow> map_of entry path)"

text \<open>
  The route table is well formed: no key occurs twice, at either level, and no handler
  list is empty.
\<close>

definition table_inv :: "('c, 's) ProtocolRouter \<Rightarrow> bool" where
  "table_inv r =
     (distinct (map fst (routes r)) \<and>
      (\<forall>(m, entry) \<in> set (routes r).
         distinct (map fst entry) \<and> (\<forall>(path, handlers) \<in> set entry. handlers \<noteq> [])))"

text \<open>The ten registration operations, each with the key it registers under.\<close>

definition registrations ::
  "(route_key \<times>
    (string \<Rightarrow> ('c, 's) ProtocolHandler \<Rightarrow> ('c, 's) ProtocolRouter \<Rightarrow> ('c, 's) ProtocolRouter)) list" where
  "registrations =
     [(Method GET, get), (Method POST, post), (Method PUT, put), (Method DELETE, delete),
      (Method PATCH, patch), (Method HEAD, head), (Method OPTIONS, options),
      (Method TRACE, trace), (Method CONNECT, connect), (Star, on)]"

text \<open>The values assigned to \<^verbatim>\<open>lastError\<close>, in the order of assignment.\<close>

fun recorded_errors :: "('c, 's) event list \<Rightarrow> jsval list" where
  "recorded_errors [] = []"
| "recorded_errors (Recorded e # evs) = e # recorded_errors evs"
| "recorded_errors (ContextBuilt c # evs) = recorded_errors evs"
| "recorded_errors (HandlerCalled h rq ps ctx out # evs) = recorded_errors evs"

text \<open>The outcomes of the calls of the context builder, in order.\<close>

fun context_builds :: "('c, 's) event list \<Rightarrow> 'c completion list" where
  "context_builds [] = []"
| "context_builds (ContextBuilt c # evs) = c # context_builds evs"
| "context_builds (Recorded e # evs) = context_builds evs"
| "context_builds (HandlerCalled h rq ps ctx out # evs) = context_builds evs"

text \<open>
  The shape of the record of calls of a router that has a context builder: a handler is
  called only right after a call of the context builder made for it, with the context
  that call returned, or, if it declares fewer than two parameters, without context
  when that call threw; a context that was built is followed by the call of its
  handler.
\<close>

fun attempts :: "('c, 's) event list \<Rightarrow> bool" where
  "attempts [] = True"
| "attempts (Recorded e # evs) = attempts evs"
| "attempts (HandlerCalled h rq ps ctx out # evs) = False"
| "attempts (ContextBuilt (Returns c) # evs) =
     (case evs of
        HandlerCalled h rq ps ctx out # evs' \<Rightarrow> ctx = Some c \<and> attempts evs'
      | _ \<Rightarrow> False)"
| "attempts (ContextBuilt (Throws e) # evs) =
     (case evs of
        HandlerCalled h rq ps ctx out # evs' \<Rightarrow> ctx = None \<and> arity h < 2 \<and> attempts evs'
      | _ \<Rightarrow> attempts evs)"



text \<open>The handlers that were called, in the order of the calls.\<close>

fun handlers_called :: "('c, 's) event list \<Rightarrow> ('c, 's) ProtocolHandler list" where
  "handlers_called [] = []"
| "handlers_called (HandlerCalled h rq ps ctx out # evs) = h # handlers_called evs"
| "handlers_called (ContextBuilt c # evs) = handlers_called evs"
| "handlers_called (Recorded e # evs) = handlers_called evs"





subsection \<open>Sample handlers, context builders and requests\<close>

text \<open>
  The outside world of the samples is a counter of context-builder calls, and the context
  is a number. \<open>h_throw e n\<close> declares \<open>n\<close> parameters and throws \<open>e\<close>; \<open>h_show n\<close>
  declares \<open>n\<close> parameters and answers 200 with the parameter \<^verbatim>\<open>id\<close>. The builders
  hand out the number of the call, throw an \<^verbatim>\<open>Error\<close>, or throw a 401 response.
\<close>

definition h_throw :: "jsval \<Rightarrow> nat \<Rightarrow> (nat, nat) ProtocolHandler" where
  "h_throw e n = \<lparr>arity = n, invoke = (\<lambda>req ps ctx w. (Throws e, w))\<rparr>"

definition h_show :: "nat \<Rightarrow> (nat, nat) ProtocolHandler" where
  "h_show n =
     \<lparr>arity = n,
      invoke = (\<lambda>req ps ctx w.
        (Returns (Response 200
           (JSObject [(''id'', case ps ''id'' of Some v \<Rightarrow> JSString v | None \<Rightarrow> JSUndefined)])),
         w))\<rparr>"

definition numbering_builder :: "(nat, nat) ContextBuilder" where
  "numbering_builder = (\<lambda>req w. (Returns w, Suc w))"

definition failing_builder :: "(nat, nat) ContextBuilder" where
  "failing_builder =
     (\<lambda>req w. (Throws (JSError ''Error'' ''Authorization header missing''), Suc w))"

definition unauthorized :: response where
  "unauthorized = Response 401 (JSObject [(''message'', JSString ''invalid request'')])"

definition denying_builder :: "(nat, nat) ContextBuilder" where
  "denying_builder = (\<lambda>req w. (Throws (JSResponse unauthorized), Suc w))"

text \<open>
  \<^verbatim>\<open>GET my-app://user/42\<close>, the same with \<^verbatim>\<open>POST\<close>, \<^verbatim>\<open>GET my-app://user/100%\<close>
  and \<^verbatim>\<open>GET my-app://user/a%20b\<close>.
\<close>

definition get_user_42 :: request where
  "get_user_42 = \<lparr>request_method = ''GET'', url_host = ''user'', url_pathname = ''/42''\<rparr>"

definition post_user_42 :: request where
  "post_user_42 = \<lparr>request_method = ''POST'', url_host = ''user'', url_pathname = ''/42''\<rparr>"

definition get_user_bad :: request where
  "get_user_bad = \<lparr>request_method = ''GET'', url_host = ''user'', url_pathname = ''/100%''\<rparr>"



section \<open>Properties of the route table\<close>

lemma set_update_subset: "set (AList.update k v al) \<subseteq> insert (k, v) (set al)"
  by (induction al) auto

lemma handlers_of_add:
  "handlers_of (add m p h r) m' p' =
     (if m' = m \<and> p' = p
      then Some (case handlers_of r m p of None \<Rightarrow> [h] | Some hs \<Rightarrow> hs @ [h])
      else handlers_of r m' p')"
  by (simp add: handlers_of_def add_def update_conv' split: option.splits)

lemma table_inv_add:
  assumes "table_inv r"
  shows "table_inv (add m p h r)"
proof -
  let ?ok = "\<lambda>entry. distinct (map fst entry) \<and> (\<forall>(path, handlers) \<in> set entry. handlers \<noteq> [])"
  have d: "distinct (map fst (routes r))" and a: "\<forall>(k, entry) \<in> set (routes r). ?ok entry"
    using assms by (auto simp: table_inv_def)
  have upd: "?ok (AList.update p hs entry)" if "?ok entry" "hs \<noteq> []" for hs entry
    using that set_update_subset [of p hs entry] by (auto simp: distinct_update)
  have step: "table_inv (r\<lparr>routes := AList.update m entry (routes r)\<rparr>)" if "?ok entry" for entry
  proof -
    have "?ok e" if "(k, e) \<in> set (AList.update m entry (routes r))" for k e
    proof -
      from that set_update_subset [of m entry "routes r"]
      have "(k, e) = (m, entry) \<or> (k, e) \<in> set (routes r)" by blast
      then show ?thesis using a \<open>?ok entry\<close> by blast
    qed
    then show ?thesis
      using d by (simp add: table_inv_def distinct_update split_beta) (metis prod.collapse)
  qed
  show ?thesis
  proof (cases "map_of (routes r) m")
    case None
    have "?ok (AList.update p [h] [])" by simp
    then show ?thesis using None step by (simp add: add_def)
  next
    case (Some entry)
    then have "(m, entry) \<in> set (routes r)" by (rule map_of_SomeD)
    then have ok: "?ok entry" using a by auto
    show ?thesis
    proof (cases "map_of entry p")
      case None
      then show ?thesis using Some step [OF upd [OF ok, of "[h]"]] by (simp add: add_def)
    next
      case (Some hs)
      then show ?thesis
        using \<open>map_of (routes r) m = Some entry\<close> step [OF upd [OF ok, of "hs @ [h]"]]
        by (simp add: add_def)
    qed
  qed
qed

lemma registrations_add: "(k, reg) \<in> set registrations \<Longrightarrow> reg = add k"
  by (auto simp: registrations_def get_def post_def put_def delete_def patch_def head_def
      options_def trace_def connect_def on_def)

text \<open>
  C9. The table of a new router is well formed, and each of the ten registration
  operations (\<open>get\<close>, \<open>post\<close>, \<open>put\<close>, \<open>delete\<close>, \<open>patch\<close>, \<open>head\<close>, \<open>options\<close>,
  \<open>trace\<close>, \<open>connect\<close>, \<open>on\<close>) keeps it well formed, so every (method, pattern) key
  of the table has a non-empty handler list. The operation changes the list of its own
  (method, pattern) pair only: a pair without a list gets the one-element list, an
  existing list gets the handler appended at its end, and every other list stays as it
  is.
\<close>

theorem route_table_invariant:
  "table_inv (new_ProtocolRouter cb) \<and>
   ((k, reg) \<in> set registrations \<and> table_inv r \<longrightarrow>
      table_inv (reg p h r) \<and>
      (\<forall>m' p'. handlers_of (reg p h r) m' p' =
         (if m' = k \<and> p' = p
          then Some (case handlers_of r k p of None \<Rightarrow> [h] | Some hs \<Rightarrow> hs @ [h])
          else handlers_of r m' p')))"
proof -
  have "table_inv (new_ProtocolRouter cb)"
    by (simp add: table_inv_def new_ProtocolRouter_def)
  then show ?thesis
    by (auto dest!: registrations_add simp: handlers_of_add table_inv_add)
qed

theorem route_table_invariant_witness:
  "(Method GET, get) \<in> set registrations \<and>
   table_inv (get ''/user/:id'' (h_throw JSNull 1) (new_ProtocolRouter None)) \<and>
   table_inv (get ''/user/:id'' (h_show 1)
     (get ''/user/:id'' (h_throw JSNull 1) (new_ProtocolRouter None))) \<and>
   handlers_of (get ''/user/:id'' (h_show 1)
     (get ''/user/:id'' (h_throw JSNull 1) (new_ProtocolRouter None))) (Method GET) ''/user/:id''
     = Some [h_throw JSNull 1, h_show 1]"
proof -
  let ?r = "get ''/user/:id'' (h_throw JSNull 1) (new_ProtocolRouter None)"
  have m: "(Method GET, get) \<in> set registrations"
    by (simp add: registrations_def)
  have i: "table_inv ?r"
    by (simp add: table_inv_def get_def add_def new_ProtocolRouter_def)
  have o: "handlers_of ?r (Method GET) ''/user/:id'' = Some [h_throw JSNull 1]"
    by (simp add: handlers_of_def get_def add_def new_ProtocolRouter_def)
  from route_table_invariant [of None "Method GET" get ?r "''/user/:id''" "h_show 1"] m i
  have c: "table_inv (get ''/user/:id'' (h_show 1) ?r) \<and>
      (\<forall>m' p'. handlers_of (get ''/user/:id'' (h_show 1) ?r) m' p' =
         (if m' = Method GET \<and> p' = ''/user/:id''
          then Some (case handlers_of ?r (Method GET) ''/user/:id'' of
                       None \<Rightarrow> [h_show 1] | Some hs \<Rightarrow> hs @ [h_show 1])
          else handlers_of ?r m' p'))"
    by blast
  then have a: "table_inv (get ''/user/:id'' (h_show 1) ?r)" ..
  from c have q: "\<forall>m' p'. handlers_of (get ''/user/:id'' (h_show 1) ?r) m' p' =
         (if m' = Method GET \<and> p' = ''/user/:id''
          then Some (case handlers_of ?r (Method GET) ''/user/:id'' of
                       None \<Rightarrow> [h_show 1] | Some hs \<Rightarrow> hs @ [h_show 1])
          else handlers_of ?r m' p')" ..
  have b: "handlers_of (get ''/user/:id'' (h_show 1) ?r) (Method GET) ''/user/:id'' =
      Some (case handlers_of ?r (Method GET) ''/user/:id'' of
              None \<Rightarrow> [h_show 1] | Some hs \<Rightarrow> hs @ [h_show 1])"
    using q [rule_format, of "Method GET" "''/user/:id''"] by simp
  from b o have "handlers_of (get ''/user/:id'' (h_show 1) ?r) (Method GET) ''/user/:id'' =
      Some [h_throw JSNull 1, h_show 1]" by simp
  with m i a show ?thesis by blast
qed

section \<open>Properties of a dispatch\<close>

subsection \<open>From one handler attempt to the whole search\<close>

text \<open>
  The search is four nested loops around \<open>try_handler\<close> and \<open>record_error\<close>. A
  relation between the state before, the way of leaving, and the state after that holds
  for one attempt and for one recording, holds when nothing is done, and composes along
  a loop that goes on, holds for the whole search.
\<close>

lemma recorded_errors_append [simp]:
  "recorded_errors (xs @ ys) = recorded_errors xs @ recorded_errors ys"
  by (induction xs rule: recorded_errors.induct) simp_all

lemma try_handlers_lift:
  assumes stay: "\<And>st. P st Next st"
    and seq: "\<And>st st1 fl st2. P st Next st1 \<Longrightarrow> P st1 fl st2 \<Longrightarrow> P st fl st2"
    and att: "\<And>h st fl st'. try_handler cb req ps h st = (fl, st') \<Longrightarrow> P st fl st'"
  shows "try_handlers cb req ps hs st = (fl, st') \<Longrightarrow> P st fl st'"
proof (induction hs arbitrary: st)
  case Nil
  then show ?case using stay by simp
next
  case (Cons h hs)
  obtain fl1 st1 where 1: "try_handler cb req ps h st = (fl1, st1)"
    by (cases "try_handler cb req ps h st")
  show ?case
  proof (cases fl1)
    case (Return resp)
    with 1 Cons.prems att [OF 1] show ?thesis by simp
  next
    case Next
    with 1 Cons.prems have "try_handlers cb req ps hs st1 = (fl, st')" by simp
    then have "P st1 fl st'" by (rule Cons.IH)
    with att [OF 1] Next show ?thesis using seq by blast
  qed
qed

lemma try_route_lift:
  assumes stay: "\<And>st. P st Next st"
    and seq: "\<And>st st1 fl st2. P st Next st1 \<Longrightarrow> P st1 fl st2 \<Longrightarrow> P st fl st2"
    and att: "\<And>ps h st fl st'. try_handler cb req ps h st = (fl, st') \<Longrightarrow> P st fl st'"
    and rec: "\<And>e st. P st Next (record_error e st)"
  shows "try_route cb req parts route st = (fl, st') \<Longrightarrow> P st fl st'"
proof -
  assume a: "try_route cb req parts route st = (fl, st')"
  obtain path hs where route: "route = (path, hs)" by (cases route)
  show ?thesis
  proof (cases "match_route path parts")
    case (Matched ps)
    with a route have "try_handlers cb req ps hs st = (fl, st')" by (simp add: try_route_def)
    then show ?thesis
      by (rule try_handlers_lift [where P = P, rotated 3]) (blast intro: stay seq att)+
  next
    case Rejected
    with a route stay show ?thesis by (auto simp: try_route_def)
  next
    case (Threw e)
    with a route rec show ?thesis by (auto simp: try_route_def)
  qed
qed

lemma scan_entry_lift:
  assumes stay: "\<And>st. P st Next st"
    and seq: "\<And>st st1 fl st2. P st Next st1 \<Longrightarrow> P st1 fl st2 \<Longrightarrow> P st fl st2"
    and att: "\<And>ps h st fl st'. try_handler cb req ps h st = (fl, st') \<Longrightarrow> P st fl st'"
    and rec: "\<And>e st. P st Next (record_error e st)"
  shows "scan_entry cb req parts entry st = (fl, st') \<Longrightarrow> P st fl st'"
proof (induction entry arbitrary: st)
  case Nil
  then show ?case using stay by simp
next
  case (Cons route entry)
  obtain fl1 st1 where 1: "try_route cb req parts route st = (fl1, st1)"
    by (cases "try_route cb req parts route st")
  from 1 have p1: "P st fl1 st1"
    by (rule try_route_lift [where P = P, rotated 4]) (blast intro: stay seq att rec)+
  show ?case
  proof (cases fl1)
    case (Return resp)
    with 1 Cons.prems p1 show ?thesis by simp
  next
    case Next
    with 1 Cons.prems have "scan_entry cb req parts entry st1 = (fl, st')" by simp
    then have "P st1 fl st'" by (rule Cons.IH)
    with p1 Next show ?thesis using seq by blast
  qed
qed

lemma scan_entries_lift:
  assumes stay: "\<And>st. P st Next st"
    and seq: "\<And>st st1 fl st2. P st Next st1 \<Longrightarrow> P st1 fl st2 \<Longrightarrow> P st fl st2"
    and att: "\<And>ps h st fl st'. try_handler cb req ps h st = (fl, st') \<Longrightarrow> P st fl st'"
    and rec: "\<And>e st. P st Next (record_error e st)"
  shows "scan_entries cb req parts rm entries st = (fl, st') \<Longrightarrow> P st fl st'"
proof (induction entries arbitrary: st)
  case Nil
  then show ?case using stay by simp
next
  case (Cons me entries)
  obtain m entry where me: "me = (m, entry)" by (cases me)
  show ?case
  proof (cases "key_name m \<noteq> ''*'' \<and> key_name m \<noteq> rm")
    case True
    with me Cons.prems have "scan_entries cb req parts rm entries st = (fl, st')" by simp
    then show ?thesis by (rule Cons.IH)
  next
    case False
    obtain fl1 st1 where 1: "scan_entry cb req parts entry st = (fl1, st1)"
      by (cases "scan_entry cb req parts entry st")
    from 1 have p1: "P st fl1 st1"
      by (rule scan_entry_lift [where P = P, rotated 4]) (blast intro: stay seq att rec)+
    show ?thesis
    proof (cases fl1)
      case (Return resp)
      with 1 me False Cons.prems p1 show ?thesis by auto
    next
      case Next
      with 1 me False Cons.prems have "scan_entries cb req parts rm entries st1 = (fl, st')"
        by auto
      then have "P st1 fl st'" by (rule Cons.IH)
      with p1 Next show ?thesis using seq by blast
    qed
  qed
qed


subsection \<open>The last error and the recorded errors\<close>

lemma try_handler_log:
  "try_handler cb req ps h st = (fl, st') \<Longrightarrow>
     \<exists>evs. calls st' = calls st @ evs \<and> lastError st' = last (lastError st # recorded_errors evs)"
  unfolding try_handler_def call_handler_def record_error_def Let_def
  by (auto split: option.splits prod.splits completion.splits jsval.splits if_splits)

lemma scan_entries_log:
  assumes "scan_entries cb req parts rm entries st = (fl, st')"
  shows "\<exists>evs. calls st' = calls st @ evs \<and> lastError st' = last (lastError st # recorded_errors evs)"
  using assms
proof (rule scan_entries_lift [where P = "\<lambda>st fl st'. \<exists>evs. calls st' = calls st @ evs \<and> lastError st' = last (lastError st # recorded_errors evs)", rotated 4])
  show "\<exists>evs. calls st = calls st @ evs \<and> lastError st = last (lastError st # recorded_errors evs)" for st :: "('a, 'b) dispatch_state"
    by (rule exI [of _ "[]"]) simp
  show "\<exists>evs. calls st2 = calls st @ evs \<and> lastError st2 = last (lastError st # recorded_errors evs)"
    if "\<exists>evs. calls st1 = calls st @ evs \<and> lastError st1 = last (lastError st # recorded_errors evs)"
      and "\<exists>evs. calls st2 = calls st1 @ evs \<and> lastError st2 = last (lastError st1 # recorded_errors evs)"
    for st st1 st2 :: "('a, 'b) dispatch_state"
  proof -
    from that obtain e1 e2 where 1: "calls st1 = calls st @ e1" "lastError st1 = last (lastError st # recorded_errors e1)"
      and 2: "calls st2 = calls st1 @ e2" "lastError st2 = last (lastError st1 # recorded_errors e2)" by blast
    have "calls st2 = calls st @ (e1 @ e2)" using 1 2 by simp
    moreover have "lastError st2 = last (lastError st # recorded_errors (e1 @ e2))"
      using 1 2 by (cases "recorded_errors e2 = []") simp_all
    ultimately show ?thesis by blast
  qed
  show "\<exists>evs. calls st' = calls st @ evs \<and> lastError st' = last (lastError st # recorded_errors evs)"
    if "try_handler cb req ps h st = (fl, st')" for ps h st fl st'
    using that by (rule try_handler_log)
  show "\<exists>evs. calls (record_error e st) = calls st @ evs \<and> lastError (record_error e st) = last (lastError st # recorded_errors evs)" for e and st :: "('a, 'b) dispatch_state"
    by (rule exI [of _ "[Recorded e]"]) (simp add: record_error_def)
qed

lemma search_lastError:
  assumes "search r req w = (fl, st)"
  shows "lastError st = last (JSNull # recorded_errors (calls st))"
proof -
  from assms scan_entries_log [of "contextBuilder r" req _ _ "routes r" "\<lparr>lastError = JSNull, world = w, calls = []\<rparr>" fl st]
  show ?thesis by (auto simp: search_def Let_def)
qed


lemmas sample_defs =
  handler_def search_def get_def post_def on_def add_def new_ProtocolRouter_def
  try_route_def try_handler_def call_handler_def record_error_def match_route_def
  h_throw_def h_show_def get_user_42_def post_user_42_def get_user_bad_def
  numbering_builder_def failing_builder_def denying_builder_def
  startsWith_def toUpperCase_def upper_char_def decodeURIComponent_def hex_digit_def Let_def
  set_param_def Response_json_def

text \<open>
  C5. When the search runs through every bucket, pattern and handler without a response
  being returned, and \<^verbatim>\<open>lastError\<close> was never assigned, the response is exactly
  status 404 with body \<^verbatim>\<open>{ message: 'Not found' }\<close>.
\<close>

theorem not_found_when_nothing_recorded:
  assumes "search r req w = (Next, st)" and "recorded_errors (calls st) = []"
  shows "handler r req w = (Returns (Response 404 (JSObject [(''message'', JSString ''Not found'')])), st)"
  using assms search_lastError [OF assms(1)] by (simp add: handler_def Response_json_def)

theorem not_found_when_nothing_recorded_witness:
  "search (post ''/user/:id'' (h_show 1) (new_ProtocolRouter None)) get_user_42 0 =
     (Next, \<lparr>lastError = JSNull, world = 0, calls = []\<rparr>) \<and>
   recorded_errors (calls \<lparr>lastError = JSNull, world = 0::nat, calls = ([] :: (nat, nat) event list)\<rparr>) = [] \<and>
   handler (post ''/user/:id'' (h_show 1) (new_ProtocolRouter None)) get_user_42 0 =
     (Returns (Response 404 (JSObject [(''message'', JSString ''Not found'')])),
      \<lparr>lastError = JSNull, world = 0, calls = []\<rparr>)"
proof -
  let ?st = "\<lparr>lastError = JSNull, world = 0::nat, calls = ([] :: (nat, nat) event list)\<rparr>"
  have a: "search (post ''/user/:id'' (h_show 1) (new_ProtocolRouter None)) get_user_42 0 = (Next, ?st)"
    by (simp add: sample_defs)
  have b: "recorded_errors (calls ?st) = []"
    by simp
  from not_found_when_nothing_recorded [OF a b] a b show ?thesis by blast
qed

text \<open>
  C10. When the search runs through all candidates without a response being returned and
  every value assigned to \<^verbatim>\<open>lastError\<close> is falsy, the response is the 404 response,
  not the 500 one: line 243 tests the truthiness of \<^verbatim>\<open>lastError\<close>.
\<close>

theorem falsy_errors_give_not_found:
  assumes "search r req w = (Next, st)"
    and "\<forall>e \<in> set (recorded_errors (calls st)). \<not> truthy e"
  shows "handler r req w = (Returns (Response 404 (JSObject [(''message'', JSString ''Not found'')])), st)"
proof -
  have "\<not> truthy (lastError st)"
  proof (cases "recorded_errors (calls st) = []")
    case True
    then show ?thesis using search_lastError [OF assms(1)] by simp
  next
    case False
    then have "lastError st \<in> set (recorded_errors (calls st))"
      using search_lastError [OF assms(1)] by simp
    with assms(2) show ?thesis by blast
  qed
  with assms(1) show ?thesis by (simp add: handler_def Response_json_def)
qed

theorem falsy_errors_give_not_found_witness:
  "search (get ''/user/:id'' (h_throw JSNull 1) (new_ProtocolRouter None)) get_user_42 0 =
     (Next, \<lparr>lastError = JSNull, world = 0,
        calls = [HandlerCalled (h_throw JSNull 1) get_user_42 [''id'' \<mapsto> ''42''] None (Throws JSNull),
                 Recorded JSNull]\<rparr>) \<and>
   recorded_errors
     [HandlerCalled (h_throw JSNull 1) get_user_42 [''id'' \<mapsto> ''42''] None (Throws JSNull),
      Recorded JSNull] = [JSNull] \<and>
   \<not> truthy JSNull \<and>
   fst (handler (get ''/user/:id'' (h_throw JSNull 1) (new_ProtocolRouter None)) get_user_42 0) =
     Returns (Response 404 (JSObject [(''message'', JSString ''Not found'')]))"
proof -
  let ?evs = "[HandlerCalled (h_throw JSNull 1) get_user_42 [''id'' \<mapsto> ''42''] None (Throws JSNull),
               Recorded JSNull]"
  let ?st = "\<lparr>lastError = JSNull, world = 0::nat, calls = ?evs\<rparr>"
  have a: "search (get ''/user/:id'' (h_throw JSNull 1) (new_ProtocolRouter None)) get_user_42 0 = (Next, ?st)"
    by (simp add: sample_defs)
  have b: "\<forall>e \<in> set (recorded_errors (calls ?st)). \<not> truthy e"
    by simp
  from falsy_errors_give_not_found [OF a b] a b show ?thesis by simp
qed

lemma internal_error_when_serialisable:
  assumes "search r req w = (Next, st)" and "recorded_errors (calls st) \<noteq> []"
    and "truthy (last (recorded_errors (calls st)))"
    and "serialisable (last (recorded_errors (calls st)))"
  shows "handler r req w = (Returns (internal_error (last (recorded_errors (calls st)))), st)"
  using assms search_lastError [OF assms(1)]
  by (simp add: handler_def internal_error_def Response_json_def)

text \<open>
  C3. The claim asks for the 500 response, with the most recently recorded error as
  \<^verbatim>\<open>reason\<close>, whenever an error was recorded and no response returned. The code
  means to give it and misses two cases. Line 243 tests \<^verbatim>\<open>lastError\<close> for truthiness
  against its initial \<^verbatim>\<open>null\<close>: a handler that throws \<^verbatim>\<open>undefined\<close> has its error
  recorded, and the answer is the 404 response. Line 244 stands outside every
  \<^verbatim>\<open>try\<close>: a handler that throws the BigInt \<^verbatim>\<open>1n\<close> leaves a truthy
  \<^verbatim>\<open>lastError\<close> that \<^verbatim>\<open>Response.json\<close> cannot serialise, and the dispatcher throws
  a \<^verbatim>\<open>TypeError\<close> instead of returning a response.
\<close>

theorem recorded_error_without_internal_error_response:
  "handler (get ''/user/:id'' (h_throw JSUndefined 1) (new_ProtocolRouter None)) get_user_42 0 =
     (Returns (Response 404 (JSObject [(''message'', JSString ''Not found'')])),
      \<lparr>lastError = JSUndefined, world = 0,
       calls = [HandlerCalled (h_throw JSUndefined 1) get_user_42 [''id'' \<mapsto> ''42''] None
                  (Throws JSUndefined),
                Recorded JSUndefined]\<rparr>) \<and>
   recorded_errors (calls (snd (handler (get ''/user/:id'' (h_throw JSUndefined 1)
     (new_ProtocolRouter None)) get_user_42 0))) = [JSUndefined] \<and>
   handler (get ''/user/:id'' (h_throw (JSBigInt 1) 1) (new_ProtocolRouter None)) get_user_42 0 =
     (Throws (JSError ''TypeError'' []),
      \<lparr>lastError = JSBigInt 1, world = 0,
       calls = [HandlerCalled (h_throw (JSBigInt 1) 1) get_user_42 [''id'' \<mapsto> ''42''] None
                  (Throws (JSBigInt 1)),
                Recorded (JSBigInt 1)]\<rparr>) \<and>
   recorded_errors (calls (snd (handler (get ''/user/:id'' (h_throw (JSBigInt 1) 1)
     (new_ProtocolRouter None)) get_user_42 0))) = [JSBigInt 1]"
  by (simp add: sample_defs JSON_TypeError_def)

subsection \<open>A response thrown by the context builder\<close>

lemma try_handler_short:
  "try_handler cb req ps h st = (fl, st') \<Longrightarrow>
     \<exists>evs. calls st' = calls st @ evs \<and>
       (\<forall>x. ContextBuilt (Throws (JSResponse x)) \<in> set evs \<longrightarrow>
          fl = Return x \<and> last evs = ContextBuilt (Throws (JSResponse x)) \<and>
          ContextBuilt (Throws (JSResponse x)) \<notin> set (butlast evs))"
  unfolding try_handler_def call_handler_def record_error_def Let_def
  by (auto split: option.splits prod.splits completion.splits jsval.splits if_splits)

lemma scan_entries_short:
  assumes "scan_entries cb req parts rm entries st = (fl, st')"
  shows "\<exists>evs. calls st' = calls st @ evs \<and>
       (\<forall>x. ContextBuilt (Throws (JSResponse x)) \<in> set evs \<longrightarrow>
          fl = Return x \<and> last evs = ContextBuilt (Throws (JSResponse x)) \<and>
          ContextBuilt (Throws (JSResponse x)) \<notin> set (butlast evs))"
    (is "?P st fl st'")
  using assms
proof (rule scan_entries_lift [where P = ?P, rotated 4])
  show "?P st Next st" for st :: "('a, 'b) dispatch_state"
    by (rule exI [of _ "[]"]) simp
  show "?P st fl st2" if 1: "?P st Next st1" and 2: "?P st1 fl st2"
    for st st1 st2 :: "('a, 'b) dispatch_state" and fl
  proof -
    from 1 obtain e1 where e1: "calls st1 = calls st @ e1"
      and n1: "\<And>x. ContextBuilt (Throws (JSResponse x)) \<notin> set e1"
      by fastforce
    from 2 obtain e2 where e2: "calls st2 = calls st1 @ e2"
      and n2: "\<And>x. ContextBuilt (Throws (JSResponse x)) \<in> set e2 \<Longrightarrow>
          fl = Return x \<and> last e2 = ContextBuilt (Throws (JSResponse x)) \<and>
          ContextBuilt (Throws (JSResponse x)) \<notin> set (butlast e2)"
      by blast
    have "calls st2 = calls st @ (e1 @ e2)" using e1 e2 by simp
    moreover have "fl = Return x \<and> last (e1 @ e2) = ContextBuilt (Throws (JSResponse x)) \<and>
          ContextBuilt (Throws (JSResponse x)) \<notin> set (butlast (e1 @ e2))"
      if "ContextBuilt (Throws (JSResponse x)) \<in> set (e1 @ e2)" for x
    proof -
      from that n1 have i: "ContextBuilt (Throws (JSResponse x)) \<in> set e2" by auto
      then have "e2 \<noteq> []" by auto
      with n2 [OF i] n1 show ?thesis by (simp add: butlast_append)
    qed
    ultimately show ?thesis by blast
  qed
  show "?P st fl st'" if "try_handler cb req ps h st = (fl, st')" for ps h st fl st'
    using that by (rule try_handler_short)
  show "?P st Next (record_error e st)" for e and st :: "('a, 'b) dispatch_state"
    by (rule exI [of _ "[Recorded e]"]) (simp add: record_error_def)
qed

lemma search_short:
  assumes "search r req w = (fl, st)"
    and "ContextBuilt (Throws (JSResponse x)) \<in> set (calls st)"
  shows "fl = Return x \<and> last (calls st) = ContextBuilt (Throws (JSResponse x)) \<and>
          ContextBuilt (Throws (JSResponse x)) \<notin> set (butlast (calls st))"
proof -
  from assms(1) have "scan_entries (contextBuilder r) req
      (js_split CHR ''/'' (''/'' @ url_host req @ url_pathname req))
      (toUpperCase (request_method req)) (routes r)
      \<lparr>lastError = JSNull, world = w, calls = []\<rparr> = (fl, st)"
    by (simp add: search_def Let_def)
  from scan_entries_short [OF this] assms(2) show ?thesis by simp
qed

text \<open>
  C4. When a call of the context builder throws a response, \<open>try_handler\<close> returns that
  response without calling the handler. For the whole dispatch: if the record of calls
  holds a context-builder call that threw the response \<open>x\<close>, then that call is the last
  entry of the record and occurs nowhere before, so no handler and no builder was called
  and no error recorded after it, and the response of the dispatch is \<open>x\<close>.
\<close>

theorem thrown_response_short_circuits:
  "(b req (world st0) = (Throws (JSResponse x), w') \<longrightarrow>
      try_handler (Some b) req ps h st0 =
        (Return x, st0\<lparr>world := w', calls := calls st0 @ [ContextBuilt (Throws (JSResponse x))]\<rparr>)) \<and>
   (handler r req w = (out, st) \<and> ContextBuilt (Throws (JSResponse x)) \<in> set (calls st) \<longrightarrow>
      out = Returns x \<and> last (calls st) = ContextBuilt (Throws (JSResponse x)) \<and>
      ContextBuilt (Throws (JSResponse x)) \<notin> set (butlast (calls st)))"
proof -
  have "out = Returns x \<and> last (calls st) = ContextBuilt (Throws (JSResponse x)) \<and>
      ContextBuilt (Throws (JSResponse x)) \<notin> set (butlast (calls st))"
    if h: "handler r req w = (out, st)" and i: "ContextBuilt (Throws (JSResponse x)) \<in> set (calls st)"
  proof -
    obtain fl st1 where s: "search r req w = (fl, st1)" by (cases "search r req w")
    with h have st: "st1 = st" by (auto simp: handler_def split: flow.splits)
    from search_short [OF s] i st
    have "fl = Return x \<and> last (calls st) = ContextBuilt (Throws (JSResponse x)) \<and>
          ContextBuilt (Throws (JSResponse x)) \<notin> set (butlast (calls st))" by blast
    with s h show ?thesis by (simp add: handler_def)
  qed
  then show ?thesis by (simp add: try_handler_def)
qed


theorem thrown_response_short_circuits_witness:
  "denying_builder get_user_42 0 = (Throws (JSResponse unauthorized), 1) \<and>
   try_handler (Some denying_builder) get_user_42 [''id'' \<mapsto> ''42''] (h_show 2)
       \<lparr>lastError = JSNull, world = 0, calls = []\<rparr> =
     (Return unauthorized,
      \<lparr>lastError = JSNull, world = 1, calls = [ContextBuilt (Throws (JSResponse unauthorized))]\<rparr>) \<and>
   handler (get ''/user/:id'' (h_show 2) (new_ProtocolRouter (Some denying_builder))) get_user_42 0 =
     (Returns unauthorized,
      \<lparr>lastError = JSNull, world = 1, calls = [ContextBuilt (Throws (JSResponse unauthorized))]\<rparr>) \<and>
   ContextBuilt (Throws (JSResponse unauthorized)) \<in>
     set [ContextBuilt (Throws (JSResponse unauthorized)) :: (nat, nat) event] \<and>
   last [ContextBuilt (Throws (JSResponse unauthorized)) :: (nat, nat) event] =
     ContextBuilt (Throws (JSResponse unauthorized))"
proof -
  let ?ev = "ContextBuilt (Throws (JSResponse unauthorized)) :: (nat, nat) event"
  let ?init = "\<lparr>lastError = JSNull, world = 0::nat, calls = ([] :: (nat, nat) event list)\<rparr>"
  let ?st = "\<lparr>lastError = JSNull, world = 1::nat, calls = [?ev]\<rparr>"
  let ?r = "get ''/user/:id'' (h_show 2) (new_ProtocolRouter (Some denying_builder))"
  have a: "denying_builder get_user_42 (world ?init) = (Throws (JSResponse unauthorized), 1)"
    by (simp add: denying_builder_def)
  have b: "handler ?r get_user_42 0 = (Returns unauthorized, ?st)"
    by (simp add: sample_defs)
  have c: "?ev \<in> set (calls ?st)"
    by simp
  note t = thrown_response_short_circuits
    [of denying_builder get_user_42 ?init unauthorized 1 "[''id'' \<mapsto> ''42'']" "h_show 2"
       ?r 0 "Returns unauthorized" ?st]
  from t a have d: "try_handler (Some denying_builder) get_user_42 [''id'' \<mapsto> ''42''] (h_show 2) ?init =
      (Return unauthorized, ?init\<lparr>world := 1, calls := calls ?init @ [?ev]\<rparr>)"
    by blast
  from t b c have e: "last (calls ?st) = ?ev"
    by blast
  from a b c d e show ?thesis by simp
qed

subsection \<open>One call of the context builder for each attempt\<close>

lemma attempts_append:
  assumes "attempts xs" and "attempts ys"
    and "\<And>h rq ps ctx out zs. ys \<noteq> HandlerCalled h rq ps ctx out # zs"
  shows "attempts (xs @ ys)"
  using assms(1)
proof (induction xs rule: attempts.induct)
  case 1
  show ?case using assms(2) by simp
next
  case (2 e evs)
  then show ?case by simp
next
  case (3 h rq ps ctx out evs)
  then show ?case by simp
next
  case (4 c evs)
  then show ?case by (cases evs) (auto split: event.splits)
next
  case (5 e evs)
  show ?case
  proof (cases evs)
    case Nil
    with assms(2,3) show ?thesis by (cases ys) (auto split: event.splits)
  next
    case (Cons ev evs')
    with 5 show ?thesis by (cases ev) auto
  qed
qed

lemma try_handler_attempts:
  "try_handler (Some b) req ps h st = (fl, st') \<Longrightarrow>
     \<exists>evs. calls st' = calls st @ evs \<and> attempts evs \<and>
       (\<forall>h rq ps ctx out zs. evs \<noteq> HandlerCalled h rq ps ctx out # zs)"
  unfolding try_handler_def call_handler_def record_error_def Let_def
  by (auto split: option.splits prod.splits completion.splits jsval.splits if_splits)

lemma scan_entries_attempts:
  assumes "scan_entries (Some b) req parts rm entries st = (fl, st')"
  shows "\<exists>evs. calls st' = calls st @ evs \<and> attempts evs \<and>
       (\<forall>h rq ps ctx out zs. evs \<noteq> HandlerCalled h rq ps ctx out # zs)"
    (is "?P st fl st'")
  using assms
proof (rule scan_entries_lift [where P = ?P, rotated 4])
  show "?P st Next st" for st :: "('a, 'b) dispatch_state"
    by (rule exI [of _ "[]"]) simp
  show "?P st fl st2" if 1: "?P st Next st1" and 2: "?P st1 fl st2"
    for st st1 st2 :: "('a, 'b) dispatch_state" and fl
  proof -
    from 1 obtain e1 where e1: "calls st1 = calls st @ e1" "attempts e1"
      and h1: "\<And>h rq ps ctx out zs. e1 \<noteq> HandlerCalled h rq ps ctx out # zs"
      by blast
    from 2 obtain e2 where e2: "calls st2 = calls st1 @ e2" "attempts e2"
      and h2: "\<And>h rq ps ctx out zs. e2 \<noteq> HandlerCalled h rq ps ctx out # zs"
      by blast
    have "calls st2 = calls st @ (e1 @ e2)" using e1 e2 by simp
    moreover have "attempts (e1 @ e2)"
      using e1(2) e2(2) h2 by (rule attempts_append)
    moreover have "e1 @ e2 \<noteq> HandlerCalled h rq ps ctx out # zs" for h rq ps ctx out zs
      by (metis h1 h2 append_eq_Cons_conv)
    ultimately show ?thesis by blast
  qed
  show "?P st fl st'" if "try_handler (Some b) req ps h st = (fl, st')" for ps h st fl st'
    using that by (rule try_handler_attempts)
  show "?P st Next (record_error e st)" for e and st :: "('a, 'b) dispatch_state"
    by (rule exI [of _ "[Recorded e]"]) (simp add: record_error_def)
qed

text \<open>
  C6, as the code has it. Line 213 stands inside the loop over the handlers: a router
  with a context builder calls it once for every handler attempt of a dispatch, right
  before the handler, and passes the handler the context that this call returned, so
  the record of calls has the shape \<open>attempts\<close>. A context is kept neither from one
  attempt to the next nor from one request to the next: each call of the builder acts
  on the outside world as it is then. As stated, with at most one call for a request
  and one context for all its attempts, the claim fails: two handlers registered for one
  pattern get the contexts 0 and 1 of two calls.
\<close>

theorem context_built_for_each_attempt:
  "(b req (world st0) = (Returns c, w') \<longrightarrow>
      try_handler (Some b) req ps h st0 =
        call_handler h req ps (Some c)
          (st0\<lparr>world := w', calls := calls st0 @ [ContextBuilt (Returns c)]\<rparr>)) \<and>
   (contextBuilder r = Some b \<and> handler r req w = (out, st) \<longrightarrow> attempts (calls st))"
proof -
  have "attempts (calls st)" if cb: "contextBuilder r = Some b" and h: "handler r req w = (out, st)"
  proof -
    obtain fl st1 where s: "search r req w = (fl, st1)" by (cases "search r req w")
    with h have st: "st1 = st" by (auto simp: handler_def split: flow.splits)
    from s cb have "scan_entries (Some b) req
        (js_split CHR ''/'' (''/'' @ url_host req @ url_pathname req))
        (toUpperCase (request_method req)) (routes r)
        \<lparr>lastError = JSNull, world = w, calls = []\<rparr> = (fl, st1)"
      by (simp add: search_def Let_def)
    from scan_entries_attempts [OF this] st show ?thesis by simp
  qed
  then show ?thesis by (simp add: try_handler_def)
qed

theorem context_built_for_each_attempt_witness:
  "numbering_builder get_user_42 0 = (Returns 0, 1) \<and>
   contextBuilder (get ''/user/:id'' (h_show 2) (new_ProtocolRouter (Some numbering_builder))) =
     Some numbering_builder \<and>
   handler (get ''/user/:id'' (h_show 2) (new_ProtocolRouter (Some numbering_builder))) get_user_42 0 =
     (Returns (Response 200 (JSObject [(''id'', JSString ''42'')])),
      \<lparr>lastError = JSNull, world = 1,
       calls = [ContextBuilt (Returns 0),
                HandlerCalled (h_show 2) get_user_42 [''id'' \<mapsto> ''42''] (Some 0)
                  (Returns (Response 200 (JSObject [(''id'', JSString ''42'')])))]\<rparr>) \<and>
   attempts [ContextBuilt (Returns 0),
             HandlerCalled (h_show 2) get_user_42 [''id'' \<mapsto> ''42''] (Some (0::nat))
               (Returns (Response 200 (JSObject [(''id'', JSString ''42'')])))]"
proof -
  let ?r = "get ''/user/:id'' (h_show 2) (new_ProtocolRouter (Some numbering_builder))"
  let ?evs = "[ContextBuilt (Returns 0),
               HandlerCalled (h_show 2) get_user_42 [''id'' \<mapsto> ''42''] (Some (0::nat))
                 (Returns (Response 200 (JSObject [(''id'', JSString ''42'')])))]"
  let ?st = "\<lparr>lastError = JSNull, world = 1::nat, calls = ?evs\<rparr>"
  have a: "numbering_builder get_user_42 0 = (Returns 0, 1)"
    by (simp add: numbering_builder_def)
  have b: "contextBuilder ?r = Some numbering_builder"
    by (simp add: get_def add_def new_ProtocolRouter_def split: option.splits)
  have c: "handler ?r get_user_42 0 = (Returns (Response 200 (JSObject [(''id'', JSString ''42'')])), ?st)"
    by (simp add: sample_defs)
  from context_built_for_each_attempt
    [of numbering_builder get_user_42 _ 0 1 _ _ ?r 0 "Returns (Response 200 (JSObject [(''id'', JSString ''42'')]))" ?st]
    b c
  have "attempts (calls ?st)" by blast
  with a b c show ?thesis by simp
qed

theorem context_built_once_counterexample:
  "handler (get ''/user/:id'' (h_show 2)
       (get ''/user/:id'' (h_throw (JSError ''Error'' ''no privilege'') 2)
          (new_ProtocolRouter (Some numbering_builder)))) get_user_42 0 =
     (Returns (Response 200 (JSObject [(''id'', JSString ''42'')])),
      \<lparr>lastError = JSError ''Error'' ''no privilege'', world = 2,
       calls = [ContextBuilt (Returns 0),
                HandlerCalled (h_throw (JSError ''Error'' ''no privilege'') 2) get_user_42
                  [''id'' \<mapsto> ''42''] (Some 0) (Throws (JSError ''Error'' ''no privilege'')),
                Recorded (JSError ''Error'' ''no privilege''),
                ContextBuilt (Returns 1),
                HandlerCalled (h_show 2) get_user_42 [''id'' \<mapsto> ''42''] (Some 1)
                  (Returns (Response 200 (JSObject [(''id'', JSString ''42'')])))]\<rparr>) \<and>
   context_builds (calls (snd (handler (get ''/user/:id'' (h_show 2)
       (get ''/user/:id'' (h_throw (JSError ''Error'' ''no privilege'') 2)
          (new_ProtocolRouter (Some numbering_builder)))) get_user_42 0))) =
     [Returns 0, Returns 1]"
  by (simp add: sample_defs)

subsection \<open>Method buckets and the wildcard bucket\<close>





subsection \<open>Binding\<close>

text \<open>
  C8. A new router has an empty table and a registration leaves a non-empty one.
  \<open>register\<close> on a router with an empty table gives back the \<^verbatim>\<open>Error\<close> object (a
  value, not a response, and not thrown) and leaves the transport as it was, without
  calling \<^verbatim>\<open>protocol.handle\<close>; on a router with a non-empty table it gives back
  \<^verbatim>\<open>undefined\<close> and the transport is the one after
  \<^verbatim>\<open>protocol.handle(scheme, #handler)\<close>. The test is made there only: the dispatcher
  itself answers a request on an empty table with the 404 response.
\<close>

theorem register_checks_table_at_bind_time:
  "routes (new_ProtocolRouter cb) = [] \<and>
   routes (add m p h r) \<noteq> [] \<and>
   (routes r = [] \<longrightarrow>
      register protocol_handle scheme r t =
        (JSError ''Error''
           ''No handlers have been registered. Please add at least one handler before calling this method.'',
         t) \<and>
      handler r req w = (Returns not_found, \<lparr>lastError = JSNull, world = w, calls = []\<rparr>)) \<and>
   (routes r \<noteq> [] \<longrightarrow>
      register protocol_handle scheme r t = (JSUndefined, protocol_handle scheme (handler r) t))"
  by (simp add: new_ProtocolRouter_def add_def register_def no_handlers_error_def handler_def
      search_def Let_def Response_json_def not_found_def split: option.splits)

theorem register_checks_table_at_bind_time_witness:
  "routes (new_ProtocolRouter None :: (nat, nat) ProtocolRouter) = [] \<and>
   register (\<lambda>scheme f t. scheme # t) ''my-app'' (new_ProtocolRouter None :: (nat, nat) ProtocolRouter) [] =
     (JSError ''Error''
        ''No handlers have been registered. Please add at least one handler before calling this method.'',
      []) \<and>
   fst (handler (new_ProtocolRouter None :: (nat, nat) ProtocolRouter) get_user_42 0) =
     Returns (Response 404 (JSObject [(''message'', JSString ''Not found'')])) \<and>
   routes (add (Method GET) ''/user/:id'' (h_show 1) (new_ProtocolRouter None)) \<noteq> [] \<and>
   fst (register (\<lambda>scheme f t. scheme # t) ''my-app''
     (add (Method GET) ''/user/:id'' (h_show 1) (new_ProtocolRouter None)) []) = JSUndefined \<and>
   snd (register (\<lambda>scheme f t. scheme # t) ''my-app''
     (add (Method GET) ''/user/:id'' (h_show 1) (new_ProtocolRouter None)) []) = [''my-app'']"
proof -
  let ?new = "new_ProtocolRouter None :: (nat, nat) ProtocolRouter"
  let ?r = "add (Method GET) ''/user/:id'' (h_show 1) ?new"
  let ?handle = "\<lambda>(scheme :: string) (f :: request \<Rightarrow> nat \<Rightarrow> response completion \<times> (nat, nat) dispatch_state)
      (t :: string list). scheme # t"
  note n = register_checks_table_at_bind_time
    [where cb = None and m = "Method GET" and p = "''/user/:id''" and h = "h_show 1" and r = ?new
       and protocol_handle = ?handle and scheme = "''my-app''" and t = "[]" and req = get_user_42
       and w = 0]
  note g = register_checks_table_at_bind_time
    [where cb = None and m = "Method GET" and p = "''/user/:id''" and h = "h_show 1" and r = ?r
       and protocol_handle = ?handle and scheme = "''my-app''" and t = "[]" and req = get_user_42
       and w = 0]
  from n have a: "routes ?new = []" by blast
  from n a have b: "register ?handle ''my-app'' ?new [] =
     (JSError ''Error''
        ''No handlers have been registered. Please add at least one handler before calling this method.'',
      [])" by blast
  from n a have "handler ?new get_user_42 0 = (Returns not_found, \<lparr>lastError = JSNull, world = 0, calls = []\<rparr>)"
    by blast
  then have c: "fst (handler ?new get_user_42 0) =
     Returns (Response 404 (JSObject [(''message'', JSString ''Not found'')]))"
    by (simp add: not_found_def)
  from n have d: "routes ?r \<noteq> []" by blast
  from g d have "register ?handle ''my-app'' ?r [] = (JSUndefined, ?handle ''my-app'' (handler ?r) [])"
    by blast
  then have e: "fst (register ?handle ''my-app'' ?r []) = JSUndefined"
    and f: "snd (register ?handle ''my-app'' ?r []) = [''my-app'']"
    by simp_all
  from a b c d e f show ?thesis by blast
qed

subsection \<open>Handlers of one pattern, in the order of registration\<close>

lemma handlers_called_append [simp]:
  "handlers_called (xs @ ys) = handlers_called xs @ handlers_called ys"
  by (induction xs rule: handlers_called.induct) simp_all

lemma try_handler_calls:
  "try_handler cb req ps h st = (fl, st') \<Longrightarrow>
     \<exists>evs. calls st' = calls st @ evs \<and>
       (handlers_called evs = [h] \<or> cb \<noteq> None \<and> handlers_called evs = []) \<and>
       (\<forall>h' rq ps' ctx out. HandlerCalled h' rq ps' ctx out \<in> set evs \<longrightarrow> rq = req \<and> ps' = ps)"
  unfolding try_handler_def call_handler_def record_error_def Let_def
  by (auto split: option.splits prod.splits completion.splits jsval.splits if_splits)

lemma try_handlers_calls:
  "try_handlers cb req ps hs st = (fl, st') \<Longrightarrow>
     \<exists>evs. calls st' = calls st @ evs \<and>
       subseq (handlers_called evs) hs \<and>
       (cb = None \<longrightarrow> prefix (handlers_called evs) hs) \<and>
       (\<forall>h' rq ps' ctx out. HandlerCalled h' rq ps' ctx out \<in> set evs \<longrightarrow> rq = req \<and> ps' = ps)"
proof (induction hs arbitrary: st)
  case Nil
  then have "calls st' = calls st @ []" by simp
  then show ?case by (intro exI [of _ "[]"]) simp
next
  case (Cons h hs)
  obtain fl1 st1 where 1: "try_handler cb req ps h st = (fl1, st1)"
    by (cases "try_handler cb req ps h st")
  from try_handler_calls [OF 1] obtain e1 where e1: "calls st1 = calls st @ e1"
    and c1: "handlers_called e1 = [h] \<or> cb \<noteq> None \<and> handlers_called e1 = []"
    and a1: "\<And>h' rq ps' ctx out. HandlerCalled h' rq ps' ctx out \<in> set e1 \<Longrightarrow> rq = req \<and> ps' = ps"
    by blast
  show ?case
  proof (cases fl1)
    case (Return resp)
    with 1 Cons.prems have "st' = st1" by simp
    with e1 c1 a1 show ?thesis by (intro exI [of _ e1]) auto
  next
    case Next
    with 1 Cons.prems have "try_handlers cb req ps hs st1 = (fl, st')" by simp
    from Cons.IH [OF this] obtain e2 where e2: "calls st' = calls st1 @ e2"
      and s2: "subseq (handlers_called e2) hs"
      and p2: "cb = None \<longrightarrow> prefix (handlers_called e2) hs"
      and a2: "\<And>h' rq ps' ctx out. HandlerCalled h' rq ps' ctx out \<in> set e2 \<Longrightarrow> rq = req \<and> ps' = ps"
      by blast
    have "calls st' = calls st @ (e1 @ e2)" using e1 e2 by simp
    moreover have "subseq (handlers_called (e1 @ e2)) (h # hs)"
      using c1 s2 by auto
    moreover have "cb = None \<longrightarrow> prefix (handlers_called (e1 @ e2)) (h # hs)"
      using c1 p2 by auto
    moreover have "rq = req \<and> ps' = ps"
      if "HandlerCalled h' rq ps' ctx out \<in> set (e1 @ e2)" for h' rq ps' ctx out
      using that a1 a2 by auto
    ultimately show ?thesis by blast
  qed
qed

lemma attempt_without_builder:
  "try_handler None req ps h st =
     (case invoke h req ps None (world st) of
        (Returns resp, w') \<Rightarrow>
          (Return resp,
           st\<lparr>world := w', calls := calls st @ [HandlerCalled h req ps None (Returns resp)]\<rparr>)
      | (Throws e, w') \<Rightarrow>
          (Next,
           st\<lparr>lastError := e, world := w',
              calls := calls st @ [HandlerCalled h req ps None (Throws e), Recorded e]\<rparr>))"
  by (simp add: try_handler_def call_handler_def record_error_def
      split: prod.splits completion.splits)

lemma attempt_with_builder:
  "try_handler (Some b) req ps h st =
     (case b req (world st) of
        (Returns c, w') \<Rightarrow>
          (case invoke h req ps (Some c) w' of
             (Returns resp, w'') \<Rightarrow>
               (Return resp,
                st\<lparr>world := w'',
                   calls := calls st @
                     [ContextBuilt (Returns c), HandlerCalled h req ps (Some c) (Returns resp)]\<rparr>)
           | (Throws e, w'') \<Rightarrow>
               (Next,
                st\<lparr>lastError := e, world := w'',
                   calls := calls st @
                     [ContextBuilt (Returns c), HandlerCalled h req ps (Some c) (Throws e),
                      Recorded e]\<rparr>))
      | (Throws err, w') \<Rightarrow>
          (case err of
             JSResponse x \<Rightarrow>
               (Return x, st\<lparr>world := w', calls := calls st @ [ContextBuilt (Throws err)]\<rparr>)
           | _ \<Rightarrow>
               if arity h < 2 then
                 (case invoke h req ps None w' of
                    (Returns resp, w'') \<Rightarrow>
                      (Return resp,
                       st\<lparr>world := w'',
                          calls := calls st @
                            [ContextBuilt (Throws err), HandlerCalled h req ps None (Returns resp)]\<rparr>)
                  | (Throws e, w'') \<Rightarrow>
                      (Next,
                       st\<lparr>lastError := e, world := w'',
                          calls := calls st @
                            [ContextBuilt (Throws err), HandlerCalled h req ps None (Throws e),
                             Recorded e]\<rparr>))
               else
                 (Next,
                  st\<lparr>lastError := err, world := w',
                     calls := calls st @ [ContextBuilt (Throws err), Recorded err]\<rparr>)))"
  by (simp add: try_handler_def call_handler_def record_error_def Let_def
      split: prod.splits completion.splits jsval.splits)

text \<open>
  C2, as the code has it. \<open>add\<close> appends the handler to the list of its (method,
  pattern) pair, which it makes when there is none, so two registrations leave both
  handlers, in that order. The handlers of a matched pattern are attempted in the order
  of the list, with the request and the parameters of the match: the handlers called are,
  in order, a subsequence of the list, and a beginning of it when the router has no
  context builder; when the attempt on the first of two handlers ends without a
  response, the attempt on the second follows at once. An attempt without a context
  builder is the call of the handler. An attempt with a context builder calls the
  builder first, and then the handler with the context built, or, if the builder threw
  something that is not a response and the handler declares fewer than two parameters,
  the handler without context; a response thrown by the builder is returned, and a
  handler of two or more parameters is skipped when the builder threw something else,
  which is recorded. So, after a first attempt without response: without a context
  builder the second handler is called with the same request and parameters; with one,
  the builder is called again, and the second handler is called with the same request
  and parameters unless the builder throws a response, or throws something else while
  the second handler declares two or more parameters. As stated, for every router, the
  claim fails in this last case.
\<close>

theorem handlers_accumulate_and_run_in_order:
  "handlers_of (add m p h2 (add m p h1 r)) m p =
     Some ((case handlers_of r m p of None \<Rightarrow> [] | Some hs0 \<Rightarrow> hs0) @ [h1, h2]) \<and>
   (match_route p parts = Matched ps \<longrightarrow>
      try_route cb req parts (p, hs) st = try_handlers cb req ps hs st) \<and>
   (try_handlers cb req ps hs st = (fl, st') \<longrightarrow>
      (\<exists>evs. calls st' = calls st @ evs \<and>
         subseq (handlers_called evs) hs \<and>
         (cb = None \<longrightarrow> prefix (handlers_called evs) hs) \<and>
         (\<forall>h' rq ps' ctx out. HandlerCalled h' rq ps' ctx out \<in> set evs \<longrightarrow> rq = req \<and> ps' = ps))) \<and>
   (try_handler cb req ps h1 st = (Next, st1) \<longrightarrow>
      try_handlers cb req ps (h1 # h2 # hs) st =
        (case try_handler cb req ps h2 st1 of
           (Return resp, st2) \<Rightarrow> (Return resp, st2)
         | (Next, st2) \<Rightarrow> try_handlers cb req ps hs st2)) \<and>
   try_handler None req ps h st =
     (case invoke h req ps None (world st) of
        (Returns resp, w') \<Rightarrow>
          (Return resp,
           st\<lparr>world := w', calls := calls st @ [HandlerCalled h req ps None (Returns resp)]\<rparr>)
      | (Throws e, w') \<Rightarrow>
          (Next,
           st\<lparr>lastError := e, world := w',
              calls := calls st @ [HandlerCalled h req ps None (Throws e), Recorded e]\<rparr>)) \<and>
   try_handler (Some b) req ps h st =
     (case b req (world st) of
        (Returns c, w') \<Rightarrow>
          (case invoke h req ps (Some c) w' of
             (Returns resp, w'') \<Rightarrow>
               (Return resp,
                st\<lparr>world := w'',
                   calls := calls st @
                     [ContextBuilt (Returns c), HandlerCalled h req ps (Some c) (Returns resp)]\<rparr>)
           | (Throws e, w'') \<Rightarrow>
               (Next,
                st\<lparr>lastError := e, world := w'',
                   calls := calls st @
                     [ContextBuilt (Returns c), HandlerCalled h req ps (Some c) (Throws e),
                      Recorded e]\<rparr>))
      | (Throws err, w') \<Rightarrow>
          (case err of
             JSResponse x \<Rightarrow>
               (Return x, st\<lparr>world := w', calls := calls st @ [ContextBuilt (Throws err)]\<rparr>)
           | _ \<Rightarrow>
               if arity h < 2 then
                 (case invoke h req ps None w' of
                    (Returns resp, w'') \<Rightarrow>
                      (Return resp,
                       st\<lparr>world := w'',
                          calls := calls st @
                            [ContextBuilt (Throws err), HandlerCalled h req ps None (Returns resp)]\<rparr>)
                  | (Throws e, w'') \<Rightarrow>
                      (Next,
                       st\<lparr>lastError := e, world := w'',
                          calls := calls st @
                            [ContextBuilt (Throws err), HandlerCalled h req ps None (Throws e),
                             Recorded e]\<rparr>))
               else
                 (Next,
                  st\<lparr>lastError := err, world := w',
                     calls := calls st @ [ContextBuilt (Throws err), Recorded err]\<rparr>))) \<and>
   (invoke h1 req ps None (world st) = (Throws e1, w1) \<and>
    invoke h2 req ps None w1 = (out2, w2) \<longrightarrow>
      calls (snd (try_handlers None req ps [h1, h2] st)) =
        calls st @ [HandlerCalled h1 req ps None (Throws e1), Recorded e1,
                    HandlerCalled h2 req ps None out2] @
          (case out2 of Returns resp \<Rightarrow> [] | Throws e2 \<Rightarrow> [Recorded e2]) \<and>
      fst (try_handlers None req ps [h1, h2] st) =
        (case out2 of Returns resp \<Rightarrow> Return resp | Throws e2 \<Rightarrow> Next)) \<and>
   (try_handler (Some b) req ps h1 st = (Next, st1) \<and>
    b req (world st1) = (Returns c, w2) \<and> invoke h2 req ps (Some c) w2 = (out2, w3) \<longrightarrow>
      calls (snd (try_handlers (Some b) req ps [h1, h2] st)) =
        calls st1 @ [ContextBuilt (Returns c), HandlerCalled h2 req ps (Some c) out2] @
          (case out2 of Returns resp \<Rightarrow> [] | Throws e2 \<Rightarrow> [Recorded e2]) \<and>
      fst (try_handlers (Some b) req ps [h1, h2] st) =
        (case out2 of Returns resp \<Rightarrow> Return resp | Throws e2 \<Rightarrow> Next)) \<and>
   (try_handler (Some b) req ps h1 st = (Next, st1) \<and>
    b req (world st1) = (Throws err, w2) \<and> (\<forall>x. err \<noteq> JSResponse x) \<and> arity h2 < 2 \<and>
    invoke h2 req ps None w2 = (out2, w3) \<longrightarrow>
      calls (snd (try_handlers (Some b) req ps [h1, h2] st)) =
        calls st1 @ [ContextBuilt (Throws err), HandlerCalled h2 req ps None out2] @
          (case out2 of Returns resp \<Rightarrow> [] | Throws e2 \<Rightarrow> [Recorded e2]) \<and>
      fst (try_handlers (Some b) req ps [h1, h2] st) =
        (case out2 of Returns resp \<Rightarrow> Return resp | Throws e2 \<Rightarrow> Next)) \<and>
   (try_handler (Some b) req ps h1 st = (Next, st1) \<and>
    b req (world st1) = (Throws err, w2) \<and> (\<forall>x. err \<noteq> JSResponse x) \<and> 2 \<le> arity h2 \<longrightarrow>
      try_handlers (Some b) req ps [h1, h2] st =
        (Next, st1\<lparr>lastError := err, world := w2,
                   calls := calls st1 @ [ContextBuilt (Throws err), Recorded err]\<rparr>))"
proof -
  have 1: "handlers_of (add m p h2 (add m p h1 r)) m p =
     Some ((case handlers_of r m p of None \<Rightarrow> [] | Some hs0 \<Rightarrow> hs0) @ [h1, h2])"
    by (simp add: handlers_of_add split: option.splits)
  have 2: "try_route cb req parts (p, hs) st = try_handlers cb req ps hs st"
    if "match_route p parts = Matched ps"
    using that by (simp add: try_route_def)
  have 4: "try_handlers cb req ps (h1 # h2 # hs) st =
        (case try_handler cb req ps h2 st1 of
           (Return resp, st2) \<Rightarrow> (Return resp, st2)
         | (Next, st2) \<Rightarrow> try_handlers cb req ps hs st2)"
    if "try_handler cb req ps h1 st = (Next, st1)"
    using that by simp
  have 7: "calls (snd (try_handlers None req ps [h1, h2] st)) =
        calls st @ [HandlerCalled h1 req ps None (Throws e1), Recorded e1,
                    HandlerCalled h2 req ps None out2] @
          (case out2 of Returns resp \<Rightarrow> [] | Throws e2 \<Rightarrow> [Recorded e2]) \<and>
      fst (try_handlers None req ps [h1, h2] st) =
        (case out2 of Returns resp \<Rightarrow> Return resp | Throws e2 \<Rightarrow> Next)"
    if "invoke h1 req ps None (world st) = (Throws e1, w1)"
      and "invoke h2 req ps None w1 = (out2, w2)"
    using that by (cases out2) (simp_all add: attempt_without_builder)
  have 8: "calls (snd (try_handlers (Some b) req ps [h1, h2] st)) =
        calls st1 @ [ContextBuilt (Returns c), HandlerCalled h2 req ps (Some c) out2] @
          (case out2 of Returns resp \<Rightarrow> [] | Throws e2 \<Rightarrow> [Recorded e2]) \<and>
      fst (try_handlers (Some b) req ps [h1, h2] st) =
        (case out2 of Returns resp \<Rightarrow> Return resp | Throws e2 \<Rightarrow> Next)"
    if f: "try_handler (Some b) req ps h1 st = (Next, st1)"
      and "b req (world st1) = (Returns c, w2)" and "invoke h2 req ps (Some c) w2 = (out2, w3)"
  proof -
    from that(2,3) have "try_handler (Some b) req ps h2 st1 =
        (case out2 of
           Returns resp \<Rightarrow>
             (Return resp,
              st1\<lparr>world := w3,
                  calls := calls st1 @
                    [ContextBuilt (Returns c), HandlerCalled h2 req ps (Some c) (Returns resp)]\<rparr>)
         | Throws e \<Rightarrow>
             (Next,
              st1\<lparr>lastError := e, world := w3,
                  calls := calls st1 @
                    [ContextBuilt (Returns c), HandlerCalled h2 req ps (Some c) (Throws e),
                     Recorded e]\<rparr>))"
      by (simp add: attempt_with_builder split: completion.splits)
    with f show ?thesis by (cases out2) simp_all
  qed
  have 9: "calls (snd (try_handlers (Some b) req ps [h1, h2] st)) =
        calls st1 @ [ContextBuilt (Throws err), HandlerCalled h2 req ps None out2] @
          (case out2 of Returns resp \<Rightarrow> [] | Throws e2 \<Rightarrow> [Recorded e2]) \<and>
      fst (try_handlers (Some b) req ps [h1, h2] st) =
        (case out2 of Returns resp \<Rightarrow> Return resp | Throws e2 \<Rightarrow> Next)"
    if f: "try_handler (Some b) req ps h1 st = (Next, st1)"
      and "b req (world st1) = (Throws err, w2)" and "\<forall>x. err \<noteq> JSResponse x"
      and "arity h2 < 2" and "invoke h2 req ps None w2 = (out2, w3)"
  proof -
    from that(2-5) have "try_handler (Some b) req ps h2 st1 =
        (case out2 of
           Returns resp \<Rightarrow>
             (Return resp,
              st1\<lparr>world := w3,
                  calls := calls st1 @
                    [ContextBuilt (Throws err), HandlerCalled h2 req ps None (Returns resp)]\<rparr>)
         | Throws e \<Rightarrow>
             (Next,
              st1\<lparr>lastError := e, world := w3,
                  calls := calls st1 @
                    [ContextBuilt (Throws err), HandlerCalled h2 req ps None (Throws e),
                     Recorded e]\<rparr>))"
      by (cases err) (simp_all add: attempt_with_builder split: completion.splits)
    with f show ?thesis by (cases out2) simp_all
  qed
  have 10: "try_handlers (Some b) req ps [h1, h2] st =
        (Next, st1\<lparr>lastError := err, world := w2,
                   calls := calls st1 @ [ContextBuilt (Throws err), Recorded err]\<rparr>)"
    if f: "try_handler (Some b) req ps h1 st = (Next, st1)"
      and "b req (world st1) = (Throws err, w2)" and "\<forall>x. err \<noteq> JSResponse x"
      and "2 \<le> arity h2"
  proof -
    from that(2-4) have "try_handler (Some b) req ps h2 st1 =
        (Next, st1\<lparr>lastError := err, world := w2,
                   calls := calls st1 @ [ContextBuilt (Throws err), Recorded err]\<rparr>)"
      by (cases err) (simp_all add: attempt_with_builder)
    with f show ?thesis by simp
  qed
  from 1 2 try_handlers_calls [of cb req ps hs st fl st'] 4
    attempt_without_builder [of req ps h st] attempt_with_builder [of b req ps h st] 7 8 9 10
  show ?thesis
    by (intro conjI impI) (blast | assumption)+
qed

theorem handlers_accumulate_and_run_in_order_witness:
  "handlers_of (add (Method GET) ''/user/:id'' (h_show 1)
      (add (Method GET) ''/user/:id'' (h_throw (JSError ''Error'' ''first'') 1) (new_ProtocolRouter None)))
      (Method GET) ''/user/:id'' = Some [h_throw (JSError ''Error'' ''first'') 1, h_show 1] \<and>
   invoke (h_throw (JSError ''Error'' ''first'') 1) get_user_42 [''id'' \<mapsto> ''42''] None 0 =
     (Throws (JSError ''Error'' ''first''), 0) \<and>
   invoke (h_show 1) get_user_42 [''id'' \<mapsto> ''42''] None 0 =
     (Returns (Response 200 (JSObject [(''id'', JSString ''42'')])), 0) \<and>
   calls (snd (try_handlers None get_user_42 [''id'' \<mapsto> ''42'']
       [h_throw (JSError ''Error'' ''first'') 1, h_show 1]
       \<lparr>lastError = JSNull, world = 0, calls = []\<rparr>)) =
     [HandlerCalled (h_throw (JSError ''Error'' ''first'') 1) get_user_42 [''id'' \<mapsto> ''42''] None
        (Throws (JSError ''Error'' ''first'')),
      Recorded (JSError ''Error'' ''first''),
      HandlerCalled (h_show 1) get_user_42 [''id'' \<mapsto> ''42''] None
        (Returns (Response 200 (JSObject [(''id'', JSString ''42'')])))] \<and>
   try_handler (Some numbering_builder) get_user_42 [''id'' \<mapsto> ''42'']
       (h_throw (JSError ''Error'' ''first'') 2) \<lparr>lastError = JSNull, world = 0, calls = []\<rparr> =
     (Next, \<lparr>lastError = JSError ''Error'' ''first'', world = 1,
        calls = [ContextBuilt (Returns 0),
                 HandlerCalled (h_throw (JSError ''Error'' ''first'') 2) get_user_42
                   [''id'' \<mapsto> ''42''] (Some 0) (Throws (JSError ''Error'' ''first'')),
                 Recorded (JSError ''Error'' ''first'')]\<rparr>) \<and>
   numbering_builder get_user_42 1 = (Returns 1, 2) \<and>
   invoke (h_show 2) get_user_42 [''id'' \<mapsto> ''42''] (Some 1) 2 =
     (Returns (Response 200 (JSObject [(''id'', JSString ''42'')])), 2) \<and>
   calls (snd (try_handlers (Some numbering_builder) get_user_42 [''id'' \<mapsto> ''42'']
       [h_throw (JSError ''Error'' ''first'') 2, h_show 2]
       \<lparr>lastError = JSNull, world = 0, calls = []\<rparr>)) =
     [ContextBuilt (Returns 0),
      HandlerCalled (h_throw (JSError ''Error'' ''first'') 2) get_user_42
        [''id'' \<mapsto> ''42''] (Some 0) (Throws (JSError ''Error'' ''first'')),
      Recorded (JSError ''Error'' ''first''),
      ContextBuilt (Returns 1),
      HandlerCalled (h_show 2) get_user_42 [''id'' \<mapsto> ''42''] (Some 1)
        (Returns (Response 200 (JSObject [(''id'', JSString ''42'')])))] \<and>
   try_handler (Some failing_builder) get_user_42 [''id'' \<mapsto> ''42'']
       (h_throw (JSError ''Error'' ''first'') 1) \<lparr>lastError = JSNull, world = 0, calls = []\<rparr> =
     (Next, \<lparr>lastError = JSError ''Error'' ''first'', world = 1,
        calls = [ContextBuilt (Throws (JSError ''Error'' ''Authorization header missing'')),
                 HandlerCalled (h_throw (JSError ''Error'' ''first'') 1) get_user_42
                   [''id'' \<mapsto> ''42''] None (Throws (JSError ''Error'' ''first'')),
                 Recorded (JSError ''Error'' ''first'')]\<rparr>) \<and>
   failing_builder get_user_42 1 = (Throws (JSError ''Error'' ''Authorization header missing''), 2) \<and>
   arity (h_show 1) < 2 \<and>
   calls (snd (try_handlers (Some failing_builder) get_user_42 [''id'' \<mapsto> ''42'']
       [h_throw (JSError ''Error'' ''first'') 1, h_show 1]
       \<lparr>lastError = JSNull, world = 0, calls = []\<rparr>)) =
     [ContextBuilt (Throws (JSError ''Error'' ''Authorization header missing'')),
      HandlerCalled (h_throw (JSError ''Error'' ''first'') 1) get_user_42
        [''id'' \<mapsto> ''42''] None (Throws (JSError ''Error'' ''first'')),
      Recorded (JSError ''Error'' ''first''),
      ContextBuilt (Throws (JSError ''Error'' ''Authorization header missing'')),
      HandlerCalled (h_show 1) get_user_42 [''id'' \<mapsto> ''42''] None
        (Returns (Response 200 (JSObject [(''id'', JSString ''42'')])))] \<and>
   2 \<le> arity (h_show 2) \<and>
   try_handlers (Some failing_builder) get_user_42 [''id'' \<mapsto> ''42'']
       [h_throw (JSError ''Error'' ''first'') 1, h_show 2]
       \<lparr>lastError = JSNull, world = 0, calls = []\<rparr> =
     (Next, \<lparr>lastError = JSError ''Error'' ''Authorization header missing'', world = 2,
        calls = [ContextBuilt (Throws (JSError ''Error'' ''Authorization header missing'')),
                 HandlerCalled (h_throw (JSError ''Error'' ''first'') 1) get_user_42
                   [''id'' \<mapsto> ''42''] None (Throws (JSError ''Error'' ''first'')),
                 Recorded (JSError ''Error'' ''first''),
                 ContextBuilt (Throws (JSError ''Error'' ''Authorization header missing'')),
                 Recorded (JSError ''Error'' ''Authorization header missing'')]\<rparr>)"
proof -
  let ?E = "JSError ''Error'' ''first''"
  let ?A = "JSError ''Error'' ''Authorization header missing''"
  let ?ok = "Returns (Response 200 (JSObject [(''id'', JSString ''42'')]))"
  let ?ps = "[''id'' \<mapsto> ''42'']"
  let ?init = "\<lparr>lastError = JSNull, world = 0::nat, calls = ([] :: (nat, nat) event list)\<rparr>"
  let ?n = "\<lparr>lastError = ?E, world = 1::nat,
        calls = [ContextBuilt (Returns 0),
                 HandlerCalled (h_throw ?E 2) get_user_42 ?ps (Some 0) (Throws ?E),
                 Recorded ?E]\<rparr>"
  let ?f = "\<lparr>lastError = ?E, world = 1::nat,
        calls = [ContextBuilt (Throws ?A),
                 HandlerCalled (h_throw ?E 1) get_user_42 ?ps None (Throws ?E),
                 Recorded ?E]\<rparr>"
  have o: "handlers_of (new_ProtocolRouter None :: (nat, nat) ProtocolRouter) (Method GET) ''/user/:id'' = None"
    by (simp add: handlers_of_def new_ProtocolRouter_def)
  have a1: "invoke (h_throw ?E 1) get_user_42 ?ps None (world ?init) = (Throws ?E, 0)"
    by (simp add: h_throw_def)
  have a2: "invoke (h_show 1) get_user_42 ?ps None 0 = (?ok, 0)"
    by (simp add: h_show_def)
  have b1: "try_handler (Some numbering_builder) get_user_42 ?ps (h_throw ?E 2) ?init = (Next, ?n)"
    by (simp add: try_handler_def call_handler_def record_error_def numbering_builder_def h_throw_def)
  have b2: "numbering_builder get_user_42 (world ?n) = (Returns 1, 2)"
    by (simp add: numbering_builder_def)
  have b3: "invoke (h_show 2) get_user_42 ?ps (Some 1) 2 = (?ok, 2)"
    by (simp add: h_show_def)
  have c1: "try_handler (Some failing_builder) get_user_42 ?ps (h_throw ?E 1) ?init = (Next, ?f)"
    by (simp add: try_handler_def call_handler_def record_error_def failing_builder_def h_throw_def)
  have c2: "failing_builder get_user_42 (world ?f) = (Throws ?A, 2)"
    by (simp add: failing_builder_def)
  have c3: "\<forall>x. ?A \<noteq> JSResponse x"
    by simp
  have c4: "arity (h_show 1) < 2"
    by (simp add: h_show_def)
  have c5: "invoke (h_show 1) get_user_42 ?ps None 2 = (?ok, 2)"
    by (simp add: h_show_def)
  have d4: "2 \<le> arity (h_show 2)"
    by (simp add: h_show_def)
  note t = handlers_accumulate_and_run_in_order
    [where m = "Method GET" and p = "''/user/:id''" and r = "new_ProtocolRouter None"
       and req = get_user_42 and ps = ?ps and st = ?init and hs = "[]" and fl = Next and st' = ?init
       and parts = "[]" and h = "h_show 1" and c = 1 and ?w3.0 = 2]
  note t1 = t [where ?h1.0 = "h_throw ?E 1" and ?h2.0 = "h_show 1" and cb = None and ?w2.0 = 0
       and b = numbering_builder and ?e1.0 = ?E and ?w1.0 = 0 and ?out2.0 = ?ok and ?st1.0 = ?n
       and err = ?A]
  note t2 = t [where ?w2.0 = 2 and ?h1.0 = "h_throw ?E 2" and ?h2.0 = "h_show 2" and cb = None
       and b = numbering_builder and ?e1.0 = ?E and ?w1.0 = 0 and ?out2.0 = ?ok and ?st1.0 = ?n
       and err = ?A]
  note t3 = t [where ?w2.0 = 2 and ?h1.0 = "h_throw ?E 1" and ?h2.0 = "h_show 1" and cb = None
       and b = failing_builder and ?e1.0 = ?E and ?w1.0 = 0 and ?out2.0 = ?ok and ?st1.0 = ?f
       and err = ?A]
  note t4 = t [where ?w2.0 = 2 and ?h1.0 = "h_throw ?E 1" and ?h2.0 = "h_show 2" and cb = None
       and b = failing_builder and ?e1.0 = ?E and ?w1.0 = 0 and ?out2.0 = ?ok and ?st1.0 = ?f
       and err = ?A]
  note k1 = t1 [THEN conjunct1]
  note k7 = t1 [THEN conjunct2, THEN conjunct2, THEN conjunct2, THEN conjunct2, THEN conjunct2, THEN conjunct2, THEN conjunct1, THEN mp, OF conjI, OF a1 a2]
  note k8 = t2 [THEN conjunct2, THEN conjunct2, THEN conjunct2, THEN conjunct2, THEN conjunct2, THEN conjunct2, THEN conjunct2, THEN conjunct1, THEN mp, OF conjI [OF b1 conjI [OF b2 b3]]]
  note k9 = t3 [THEN conjunct2, THEN conjunct2, THEN conjunct2, THEN conjunct2, THEN conjunct2, THEN conjunct2, THEN conjunct2, THEN conjunct2, THEN conjunct1, THEN mp, OF conjI [OF c1 conjI [OF c2 conjI [OF c3 conjI [OF c4 c5]]]]]
  note k10 = t4 [THEN conjunct2, THEN conjunct2, THEN conjunct2, THEN conjunct2, THEN conjunct2, THEN conjunct2, THEN conjunct2, THEN conjunct2, THEN conjunct2, THEN mp, OF conjI [OF c1 conjI [OF c2 conjI [OF c3 d4]]]]
  from k1 o have r0: "handlers_of (add (Method GET) ''/user/:id'' (h_show 1)
      (add (Method GET) ''/user/:id'' (h_throw ?E 1) (new_ProtocolRouter None)))
      (Method GET) ''/user/:id'' = Some [h_throw ?E 1, h_show 1]"
    by simp
  from k7 have "calls (snd (try_handlers None get_user_42 ?ps [h_throw ?E 1, h_show 1] ?init)) =
      calls ?init @ [HandlerCalled (h_throw ?E 1) get_user_42 ?ps None (Throws ?E), Recorded ?E,
                    HandlerCalled (h_show 1) get_user_42 ?ps None ?ok] @
          (case ?ok of Returns resp \<Rightarrow> [] | Throws e2 \<Rightarrow> [Recorded e2])"
    by blast
  then have r1: "calls (snd (try_handlers None get_user_42 ?ps [h_throw ?E 1, h_show 1] ?init)) =
      [HandlerCalled (h_throw ?E 1) get_user_42 ?ps None (Throws ?E), Recorded ?E,
       HandlerCalled (h_show 1) get_user_42 ?ps None ?ok]"
    by simp
  from k8 have "calls (snd (try_handlers (Some numbering_builder) get_user_42 ?ps
        [h_throw ?E 2, h_show 2] ?init)) =
      calls ?n @ [ContextBuilt (Returns 1), HandlerCalled (h_show 2) get_user_42 ?ps (Some 1) ?ok] @
          (case ?ok of Returns resp \<Rightarrow> [] | Throws e2 \<Rightarrow> [Recorded e2])"
    by blast
  then have r2: "calls (snd (try_handlers (Some numbering_builder) get_user_42 ?ps
        [h_throw ?E 2, h_show 2] ?init)) =
      [ContextBuilt (Returns 0),
       HandlerCalled (h_throw ?E 2) get_user_42 ?ps (Some 0) (Throws ?E), Recorded ?E,
       ContextBuilt (Returns 1), HandlerCalled (h_show 2) get_user_42 ?ps (Some 1) ?ok]"
    by simp
  from k9 have "calls (snd (try_handlers (Some failing_builder) get_user_42 ?ps
        [h_throw ?E 1, h_show 1] ?init)) =
      calls ?f @ [ContextBuilt (Throws ?A), HandlerCalled (h_show 1) get_user_42 ?ps None ?ok] @
          (case ?ok of Returns resp \<Rightarrow> [] | Throws e2 \<Rightarrow> [Recorded e2])"
    by blast
  then have r3: "calls (snd (try_handlers (Some failing_builder) get_user_42 ?ps
        [h_throw ?E 1, h_show 1] ?init)) =
      [ContextBuilt (Throws ?A),
       HandlerCalled (h_throw ?E 1) get_user_42 ?ps None (Throws ?E), Recorded ?E,
       ContextBuilt (Throws ?A), HandlerCalled (h_show 1) get_user_42 ?ps None ?ok]"
    by simp
  from k10 have "try_handlers (Some failing_builder) get_user_42 ?ps
        [h_throw ?E 1, h_show 2] ?init =
      (Next, ?f\<lparr>lastError := ?A, world := 2,
                calls := calls ?f @ [ContextBuilt (Throws ?A), Recorded ?A]\<rparr>)"
    by blast
  then have r4: "try_handlers (Some failing_builder) get_user_42 ?ps
        [h_throw ?E 1, h_show 2] ?init =
      (Next, \<lparr>lastError = ?A, world = 2,
        calls = [ContextBuilt (Throws ?A),
                 HandlerCalled (h_throw ?E 1) get_user_42 ?ps None (Throws ?E), Recorded ?E,
                 ContextBuilt (Throws ?A), Recorded ?A]\<rparr>)"
    by simp
  from r0 a1 a2 r1 b1 b2 b3 r2 c1 c2 c4 r3 d4 r4 show ?thesis
    by simp
qed

theorem second_handler_skipped_counterexample:
  "handlers_of (get ''/user/:id'' (h_show 2)
      (get ''/user/:id'' (h_throw (JSError ''Error'' ''first'') 1)
         (new_ProtocolRouter (Some failing_builder))))
      (Method GET) ''/user/:id'' = Some [h_throw (JSError ''Error'' ''first'') 1, h_show 2] \<and>
   handler (get ''/user/:id'' (h_show 2)
      (get ''/user/:id'' (h_throw (JSError ''Error'' ''first'') 1)
         (new_ProtocolRouter (Some failing_builder)))) get_user_42 0 =
     (Returns (Response 500 (JSObject [(''message'', JSString ''Internal error''),
        (''reason'', JSError ''Error'' ''Authorization header missing'')])),
      \<lparr>lastError = JSError ''Error'' ''Authorization header missing'', world = 2,
       calls = [ContextBuilt (Throws (JSError ''Error'' ''Authorization header missing'')),
                HandlerCalled (h_throw (JSError ''Error'' ''first'') 1) get_user_42
                  [''id'' \<mapsto> ''42''] None (Throws (JSError ''Error'' ''first'')),
                Recorded (JSError ''Error'' ''first''),
                ContextBuilt (Throws (JSError ''Error'' ''Authorization header missing'')),
                Recorded (JSError ''Error'' ''Authorization header missing'')]\<rparr>) \<and>
   handlers_called (calls (snd (handler (get ''/user/:id'' (h_show 2)
      (get ''/user/:id'' (h_throw (JSError ''Error'' ''first'') 1)
         (new_ProtocolRouter (Some failing_builder)))) get_user_42 0))) =
     [h_throw (JSError ''Error'' ''first'') 1]"
  by (simp add: sample_defs handlers_of_def)

subsection \<open>Matching a pattern\<close>











end
